theory Spec2Isabelle
  imports Complex_Main "HOL-Library.Multiset" "HOL-Library.Char_ord" "HOL-Library.List_Lexorder"
begin

section \<open>jpod\_nano: playlist, volume and playback core\<close>

text \<open>
  The development embeds \<^verbatim>\<open>src/audio/playlist.cpp\<close> and \<^verbatim>\<open>src/audio/player.cpp\<close>.
  Member variables become record fields, member functions become functions that take the
  object and return it updated. Everything an operation obtains from outside the class
  (the steady clock, what libmpg123 and SDL return, the random engine, the rounding of
  binary32 arithmetic) is an explicit argument. Exceptions are values of type \<open>error\<close>;
  a construct whose behaviour C++ leaves undefined yields \<open>UndefinedBehaviour\<close>.
\<close>

datatype error =
    FilesystemError string
  | EmptyPlaylist string
  | OutOfRange
  | LoadError string
  | DeviceError
  | UndefinedBehaviour


subsection \<open>Machine arithmetic\<close>

text \<open>
  \<open>size_t\<close> is a 64-bit unsigned integer: a natural number below \<open>2 ^ 64\<close> with the
  wrap-around of \<open>+\<close> and \<open>-\<close> written out. \<open>int\<close> is 32 bits wide: converting a
  64-bit count to it (\<open>static_cast<int>\<close>) keeps the value modulo \<open>2 ^ 32\<close>, and signed
  overflow of \<open>int + int\<close> is undefined. Integer division truncates towards zero.
  The 64-bit tick counts of \<open>std::chrono\<close> are integers without a bound.
\<close>

definition SIZE_MOD :: nat where
  "SIZE_MOD = 2 ^ 64"

definition size_add :: "nat \<Rightarrow> nat \<Rightarrow> nat" where
  "size_add a b = (a + b) mod SIZE_MOD"

definition size_sub :: "nat \<Rightarrow> nat \<Rightarrow> nat" where
  "size_sub a b = (a + SIZE_MOD - b mod SIZE_MOD) mod SIZE_MOD"

definition INT_MIN :: int where
  "INT_MIN = - (2 ^ 31)"

definition INT_MAX :: int where
  "INT_MAX = 2 ^ 31 - 1"

definition int_range :: "int \<Rightarrow> bool" where
  "int_range v \<longleftrightarrow> INT_MIN \<le> v \<and> v \<le> INT_MAX"

definition to_int :: "int \<Rightarrow> int" where
  "to_int v = (v + 2 ^ 31) mod 2 ^ 32 - 2 ^ 31"

definition trunc_div :: "int \<Rightarrow> int \<Rightarrow> int" where
  "trunc_div a b = (if (a < 0) = (b < 0) then \<bar>a\<bar> div \<bar>b\<bar> else - (\<bar>a\<bar> div \<bar>b\<bar>))"

text \<open>
  \<open>std::clamp(v, lo, hi)\<close> is \<open>v < lo ? lo : hi < v ? hi : v\<close>; it is undefined for
  \<open>hi < lo\<close>, which the caller checks.
\<close>

definition clamp_int :: "int \<Rightarrow> int \<Rightarrow> int \<Rightarrow> int" where
  "clamp_int v lo hi = (if v < lo then lo else if hi < v then hi else v)"


subsection \<open>The values of \<open>float\<close>\<close>

text \<open>
  A \<open>float\<close> is not-a-number, an infinity or a number. Every binary32 number is a real,
  so \<open>Num\<close> ranges over at least the numbers a \<open>float\<close> can hold. Comparison is exact and
  false whenever an operand is not-a-number. Addition and division round: the rounding
  to the nearest binary32 value is the argument \<open>rnd\<close>.
\<close>

datatype float = NaN | NegInf | Num real | PosInf

fun float_less :: "float \<Rightarrow> float \<Rightarrow> bool" where
  "float_less NaN b = False"
| "float_less a NaN = False"
| "float_less NegInf NegInf = False"
| "float_less NegInf b = True"
| "float_less (Num x) NegInf = False"
| "float_less (Num x) (Num y) = (x < y)"
| "float_less (Num x) PosInf = True"
| "float_less PosInf b = False"

fun float_neg :: "float \<Rightarrow> float" where
  "float_neg NaN = NaN"
| "float_neg NegInf = PosInf"
| "float_neg (Num x) = Num (- x)"
| "float_neg PosInf = NegInf"

fun float_add :: "(real \<Rightarrow> float) \<Rightarrow> float \<Rightarrow> float \<Rightarrow> float" where
  "float_add rnd (Num x) (Num y) = rnd (x + y)"
| "float_add rnd NaN b = NaN"
| "float_add rnd a NaN = NaN"
| "float_add rnd PosInf NegInf = NaN"
| "float_add rnd NegInf PosInf = NaN"
| "float_add rnd PosInf b = PosInf"
| "float_add rnd a PosInf = PosInf"
| "float_add rnd NegInf b = NegInf"
| "float_add rnd a NegInf = NegInf"

definition float_sub :: "(real \<Rightarrow> float) \<Rightarrow> float \<Rightarrow> float \<Rightarrow> float" where
  "float_sub rnd a b = float_add rnd a (float_neg b)"

text \<open>Division by a positive integer constant converted to \<open>float\<close>.\<close>

fun float_div_pos :: "(real \<Rightarrow> float) \<Rightarrow> float \<Rightarrow> nat \<Rightarrow> float" where
  "float_div_pos rnd (Num x) n = rnd (x / real n)"
| "float_div_pos rnd a n = a"

definition clamp_float :: "float \<Rightarrow> float \<Rightarrow> float \<Rightarrow> float" where
  "clamp_float v lo hi = (if float_less v lo then lo else if float_less hi v then hi else v)"

text \<open>
  The clamp of the specification, on the reals: the value itself inside \<open>[lo, hi]\<close>, the
  nearer bound outside.
\<close>

definition clamp_spec :: "real \<Rightarrow> real \<Rightarrow> real \<Rightarrow> real" where
  "clamp_spec v lo hi = max lo (min hi v)"


subsection \<open>Playlist\<close>

text \<open>
  \<^verbatim>\<open>
  std::vector<std::string> songs_;
  std::vector<size_t> shuffle_order_;
  size_t index_ = 0;
  \<close>
\<close>

record playlist =
  songs :: "string list"
  shuffle_order :: "nat list"
  index :: nat

text \<open>
  \<open>path.extension()\<close> of \<open>std::filesystem\<close>: the part of the file name from its last
  period on; empty when there is no period, when the only period is the first character
  of the name, and for the names \<open>.\<close> and \<open>..\<close>.
\<close>

definition filename :: "string \<Rightarrow> string" where
  "filename p = rev (takeWhile (\<lambda>c. c \<noteq> CHR ''/'') (rev p))"

definition extension :: "string \<Rightarrow> string" where
  "extension p =
     (let f = filename p;
          suffix = rev (takeWhile (\<lambda>c. c \<noteq> CHR ''.'') (rev f))
      in if f = ''.'' \<or> f = ''..'' then ''''
         else if CHR ''.'' \<notin> set f then ''''
         else if length suffix + 1 = length f then ''''
         else CHR ''.'' # suffix)"

text \<open>
  \<^verbatim>\<open>
  for (const auto &entry : fs::directory_iterator(folder_path)) {
    if (entry.is_regular_file()) {
      const auto &path = entry.path();
      if (path.extension() == ".mp3") {
        shuffle_order_.emplace_back(songs_.size());
        songs_.emplace_back(path.string());
      }
    }
  }
  std::ranges::sort(songs_, std::less{}, std::identity{});
  \<close>
  A directory entry is its path and whether it is a regular file; the entries come in
  the order the iterator yields them.
\<close>

fun load_entries :: "(string \<times> bool) list \<Rightarrow> playlist \<Rightarrow> playlist" where
  "load_entries [] p = p"
| "load_entries ((path, regular) # es) p =
     load_entries es
       (if regular \<and> extension path = ''.mp3''
        then p\<lparr>songs := songs p @ [path],
               shuffle_order := shuffle_order p @ [length (songs p)]\<rparr>
        else p)"

definition load_songs :: "(string \<times> bool) list \<Rightarrow> playlist \<Rightarrow> playlist" where
  "load_songs es p = (let q = load_entries es p in q\<lparr>songs := sort (songs q)\<rparr>)"

text \<open>
  The constructor. \<open>None\<close> is a folder the directory iterator cannot open, which
  throws; no song found throws as well.
\<close>

definition Playlist :: "string \<Rightarrow> (string \<times> bool) list option \<Rightarrow> error + playlist" where
  "Playlist folder_path dir =
     (case dir of
        None \<Rightarrow> Inl (FilesystemError folder_path)
      | Some es \<Rightarrow>
          (let p = load_songs es \<lparr>songs = [], shuffle_order = [], index = 0\<rparr>
           in if songs p = []
              then Inl (EmptyPlaylist (''No MP3 files found in folder: '' @ folder_path))
              else Inr p))"

text \<open>
  \<^verbatim>\<open>return songs_.at(shuffle_order_[index_]);\<close>
  \<open>operator[]\<close> outside the vector is undefined, \<open>at\<close> outside the vector throws.
\<close>

definition current :: "playlist \<Rightarrow> error + string" where
  "current p =
     (if index p < length (shuffle_order p)
      then (let i = shuffle_order p ! index p
            in if i < length (songs p) then Inr (songs p ! i) else Inl OutOfRange)
      else Inl UndefinedBehaviour)"

text \<open>
  \<^verbatim>\<open>
  index_ = (index_ + 1) % songs_.size();
  return current();
  \<close>
  The remainder by zero is undefined. The functions return the playlist as the call
  leaves it together with what the call returns.
\<close>

definition next_track :: "playlist \<Rightarrow> playlist \<times> (error + string)" where
  "next_track p =
     (if length (songs p) = 0 then (p, Inl UndefinedBehaviour)
      else (let q = p\<lparr>index := size_add (index p) 1 mod length (songs p)\<rparr>
            in (q, current q)))"

text \<open>
  \<^verbatim>\<open>
  if (index_ == 0) {
    index_ = songs_.size();
  }
  index_ = (index_ - 1) % songs_.size();
  return current();
  \<close>
\<close>

definition prev_track :: "playlist \<Rightarrow> playlist \<times> (error + string)" where
  "prev_track p =
     (let p1 = (if index p = 0 then p\<lparr>index := length (songs p)\<rparr> else p)
      in if length (songs p1) = 0 then (p1, Inl UndefinedBehaviour)
         else (let q = p1\<lparr>index := size_sub (index p1) 1 mod length (songs p1)\<rparr>
               in (q, current q)))"

text \<open>
  \<^verbatim>\<open>
  has_next: return index_ + 1 < songs_.size();
  has_prev: return index_ > 0;
  \<close>
\<close>

definition has_next :: "playlist \<Rightarrow> bool" where
  "has_next p \<longleftrightarrow> size_add (index p) 1 < length (songs p)"

definition has_prev :: "playlist \<Rightarrow> bool" where
  "has_prev p \<longleftrightarrow> index p > 0"

text \<open>
  \<open>std::shuffle\<close> belongs to the standard library. It is the exchange shuffle: position
  \<open>i\<close>, for \<open>i\<close> from 1 to the end, is exchanged with a position drawn from \<open>0..i\<close>. The
  number the random engine yields for position \<open>i\<close> is \<open>draw i\<close>.
\<close>

definition exchange :: "nat \<Rightarrow> nat \<Rightarrow> 'a list \<Rightarrow> 'a list" where
  "exchange i j xs = xs[i := xs ! j, j := xs ! i]"

definition std_shuffle :: "(nat \<Rightarrow> nat) \<Rightarrow> 'a list \<Rightarrow> 'a list" where
  "std_shuffle draw xs =
     foldl (\<lambda>a i. exchange i (draw i mod (i + 1)) a) xs [1..<length xs]"

text \<open>
  \<^verbatim>\<open>
  shuffle_order_.resize(songs_.size());
  std::iota(shuffle_order_.begin(), shuffle_order_.end(), 0);
  std::shuffle(shuffle_order_.begin(), shuffle_order_.end(),
               std::mt19937{std::random_device{}()});
  index_ = 0;
  \<close>
\<close>

definition reshuffle :: "(nat \<Rightarrow> nat) \<Rightarrow> playlist \<Rightarrow> playlist" where
  "reshuffle draw p =
     p\<lparr>shuffle_order := std_shuffle draw [0..<length (songs p)], index := 0\<rparr>"

text \<open>
  What the constructor establishes and every member function keeps: there is a song, no
  song is the empty string, the cursor is inside the order, and the order is a
  permutation of the song indices. A vector holds fewer than \<open>2 ^ 64\<close> elements.
\<close>

definition playlist_inv :: "playlist \<Rightarrow> bool" where
  "playlist_inv p \<longleftrightarrow>
     songs p \<noteq> [] \<and> length (songs p) < SIZE_MOD \<and> [] \<notin> set (songs p) \<and>
     index p < length (songs p) \<and>
     mset (shuffle_order p) = mset [0..<length (songs p)]"


subsection \<open>Player: data\<close>

datatype State = STOPPED | PAUSE | PLAY | SWITCH_OFF

text \<open>
  The calls the player makes to SDL, to libmpg123 and to the error stream are recorded,
  in order, in the field \<open>calls\<close>; the other fields are the member variables. The decoder
  handle and the sample buffer live in the libraries. Times are counts of nanoseconds of
  the steady clock (\<open>start_time\<close>) and of milliseconds (\<open>elapsed_duration\<close>).
\<close>

datatype extcall =
    SDL_PauseAudioDevice nat bool
  | SDL_ClearQueuedAudio nat
  | SDL_QueueAudio nat nat
  | SDL_OpenAudioDevice int int
  | SDL_CloseAudioDevice nat
  | Mpg123_open string
  | Mpg123_seek int
  | Mpg123_close
  | Cerr string

record player =
  volume :: float
  last_volume :: float
  elapsed_seconds :: int
  state :: State
  audio_device :: "nat option"
  sample_rate :: int
  title :: string
  artist :: string
  total_seconds :: int
  start_time :: int
  elapsed_duration :: int
  playlist :: "playlist option"
  calls :: "extcall list"

definition VOLUME_FULL :: float where
  "VOLUME_FULL = Num 1"

definition VOLUME_MUTE :: float where
  "VOLUME_MUTE = Num 0"

definition SDL_AUDIO_BUFFER_SIZE :: nat where
  "SDL_AUDIO_BUFFER_SIZE = 8192"

definition DEFAULT_FADE_DURATION :: int where
  "DEFAULT_FADE_DURATION = 300"

definition MPG123_OK :: int where
  "MPG123_OK = 0"

definition MPG123_ERR :: int where
  "MPG123_ERR = - 1"

text \<open>
  The object after its constructor, the libraries having initialised:
  \<^verbatim>\<open>
  std::atomic<float> volume_{VOLUME_FULL};
  std::atomic<float> last_volume_{VOLUME_FULL};
  std::atomic<int> elapsed_seconds_{0};
  std::atomic<State> state_{State::STOPPED};
  std::optional<SDL_AudioDeviceID> audio_device_{0};
  int32_t sample_rate_{0};
  int total_seconds_{0};
  std::chrono::steady_clock::time_point start_time_;
  std::chrono::milliseconds elapsed_duration_{0};
  \<close>
\<close>

definition Player :: player where
  "Player =
     \<lparr>volume = VOLUME_FULL, last_volume = VOLUME_FULL, elapsed_seconds = 0,
      state = STOPPED, audio_device = Some 0, sample_rate = 0, title = [], artist = [],
      total_seconds = 0, start_time = 0, elapsed_duration = 0, playlist = None,
      calls = []\<rparr>"

definition emit :: "extcall \<Rightarrow> player \<Rightarrow> player" where
  "emit c s = s\<lparr>calls := calls s @ [c]\<rparr>"


subsection \<open>Player: volume\<close>

text \<open>
  \<^verbatim>\<open>
  void Player::set_volume(float vol) {
    volume_.store(std::clamp(vol, VOLUME_MUTE, VOLUME_FULL));
  }
  void Player::adjust_volume(float delta) { set_volume(get_volume() + delta); }
  auto Player::get_volume() const -> float { return volume_.load(); }
  \<close>
\<close>

definition set_volume :: "float \<Rightarrow> player \<Rightarrow> player" where
  "set_volume vol s = s\<lparr>volume := clamp_float vol VOLUME_MUTE VOLUME_FULL\<rparr>"

definition get_volume :: "player \<Rightarrow> float" where
  "get_volume s = volume s"

definition adjust_volume :: "(real \<Rightarrow> float) \<Rightarrow> float \<Rightarrow> player \<Rightarrow> player" where
  "adjust_volume rnd delta s = set_volume (float_add rnd (get_volume s) delta) s"

text \<open>
  \<^verbatim>\<open>
  static constexpr auto N_STEPS = 10;
  auto step = (target - get_volume()) / N_STEPS;
  for (int i = 0; i < N_STEPS; ++i) {
    set_volume(get_volume() + step);
    std::this_thread::sleep_for(std::chrono::milliseconds(duration_ms / N_STEPS));
  }
  set_volume(target);
  \<close>
  The task runs to its end before the caller goes on (\<open>fade_future.wait()\<close>).
\<close>

definition N_STEPS :: nat where
  "N_STEPS = 10"

definition fade_to :: "(real \<Rightarrow> float) \<Rightarrow> float \<Rightarrow> int \<Rightarrow> player \<Rightarrow> player" where
  "fade_to rnd target duration_ms s =
     (let step = float_div_pos rnd (float_sub rnd target (get_volume s)) N_STEPS;
          s1 = fold (\<lambda>i t. set_volume (float_add rnd (get_volume t) step) t) [0..<N_STEPS] s
      in set_volume target s1)"


subsection \<open>Player: device, loading, pause and resume\<close>

definition pause_audio_device :: "player \<Rightarrow> player" where
  "pause_audio_device s =
     (case audio_device s of Some d \<Rightarrow> emit (SDL_PauseAudioDevice d True) s | None \<Rightarrow> s)"

definition resume_audio_device :: "player \<Rightarrow> player" where
  "resume_audio_device s =
     (case audio_device s of Some d \<Rightarrow> emit (SDL_PauseAudioDevice d False) s | None \<Rightarrow> s)"

text \<open>
  What the libraries report for the file a call opens: whether \<open>mpg123_open\<close> succeeds,
  the rate and channels of \<open>mpg123_getformat\<close>, the result of \<open>mpg123_length\<close>, the ID3
  data (whether the flag is set, the title and artist pointers of the v2 tag, the v1 tag)
  and the id \<open>SDL_OpenAudioDevice\<close> returns (0 when it fails). The v1 tag is the
  structure of character arrays that follows the three bytes \<open>TAG\<close>:
  \<^verbatim>\<open>
  char title[30]; char artist[30]; char album[30]; char year[4]; char comment[30];
  unsigned char genre;
  \<close>
  none of which needs to end in a zero byte.
\<close>

record id3v1_tag =
  v1_title :: string
  v1_artist :: string
  v1_album :: string
  v1_year :: string
  v1_comment :: string
  v1_genre :: char

record file_info =
  open_ok :: bool
  fmt_rate :: int
  fmt_channels :: int
  length_samples :: int
  has_id3 :: bool
  id3v2 :: "(string option \<times> string option) option"
  id3v1 :: "id3v1_tag option"
  device_id :: nat

text \<open>
  \<^verbatim>\<open>
  if ((meta & MPG123_ID3) != 0) {
    mpg123_id3(mpg_handler_, &data1, &data2);
    if (data2 != nullptr) {
      title_ = (data2->title != nullptr) ? data2->title->p : "";
      artist_ = (data2->artist != nullptr) ? data2->artist->p : "";
    } else if (data1 != nullptr) {
      title_ = data1->title;
      artist_ = data1->artist;
    }
  }
  \<close>
  Assigning a character array to a \<open>std::string\<close> copies the bytes from its first one up to
  the next zero byte, so a v1 title that fills its array runs on into the artist and the
  fields after it; with no zero byte up to the end of the structure the read leaves the
  structure, which is undefined. The result is the error, if any, and the object.
\<close>

definition c_string :: "string \<Rightarrow> string option" where
  "c_string bytes =
     (if CHR 0x00 \<in> set bytes then Some (takeWhile (\<lambda>c. c \<noteq> CHR 0x00) bytes) else None)"

definition from_artist :: "id3v1_tag \<Rightarrow> string" where
  "from_artist tag = v1_artist tag @ v1_album tag @ v1_year tag @ v1_comment tag @ [v1_genre tag]"

definition from_title :: "id3v1_tag \<Rightarrow> string" where
  "from_title tag = v1_title tag @ from_artist tag"

definition read_tags :: "file_info \<Rightarrow> player \<Rightarrow> error option \<times> player" where
  "read_tags fi s =
     (if has_id3 fi then
        (case id3v2 fi of
           Some (t, a) \<Rightarrow>
             (None,
              s\<lparr>title := (case t of Some v \<Rightarrow> v | None \<Rightarrow> []),
                artist := (case a of Some v \<Rightarrow> v | None \<Rightarrow> [])\<rparr>)
         | None \<Rightarrow>
             (case id3v1 fi of
                Some tag \<Rightarrow>
                  (case c_string (from_title tag) of
                     None \<Rightarrow> (Some UndefinedBehaviour, s)
                   | Some t \<Rightarrow>
                       (case c_string (from_artist tag) of
                          None \<Rightarrow> (Some UndefinedBehaviour, s\<lparr>title := t\<rparr>)
                        | Some a \<Rightarrow> (None, s\<lparr>title := t, artist := a\<rparr>)))
              | None \<Rightarrow> (None, s)))
      else (None, s))"

text \<open>
  \<^verbatim>\<open>
  state_.store(State::STOPPED);
  pause_audio_device();
  if (mpg123_open(mpg_handler_, path.c_str()) != MPG123_OK)
    throw std::runtime_error("Failed to open " + path);
  mpg123_getformat(mpg_handler_, &rate, &channels, &encoding);
  sample_rate_ = static_cast<int64_t>(rate);
  off_t total_samples = mpg123_length(mpg_handler_);
  if (total_samples != MPG123_ERR) {
    total_seconds_ = static_cast<int>(total_samples / rate);
  } else {
    total_seconds_ = 0;
  }
  elapsed_seconds_ = 0;
  elapsed_duration_ = std::chrono::seconds(0);
  ... tags ...
  audio_device_ = SDL_OpenAudioDevice(nullptr, 0, &want, &have, 0);
  if (audio_device_ == 0)
    throw std::runtime_error("SDL_OpenAudioDevice error: " + ...);
  pause_audio_device();
  \<close>
  The result is the exception thrown, if any, and the object as the call leaves it.
  Division by a rate of zero is undefined, and so is a tag read that leaves the tag.
\<close>

definition load_song :: "file_info \<Rightarrow> string \<Rightarrow> player \<Rightarrow> error option \<times> player" where
  "load_song fi path s =
     (let s1 = pause_audio_device (s\<lparr>state := STOPPED\<rparr>);
          s2 = emit (Mpg123_open path) s1
      in if \<not> open_ok fi then (Some (LoadError (''Failed to open '' @ path)), s2)
         else
           (let rate = fmt_rate fi;
                s3 = s2\<lparr>sample_rate := to_int rate\<rparr>;
                total_samples = length_samples fi
            in if total_samples \<noteq> MPG123_ERR \<and> rate = 0 then (Some UndefinedBehaviour, s3)
               else
                 (let s4 = s3\<lparr>total_seconds :=
                               (if total_samples \<noteq> MPG123_ERR
                                then to_int (trunc_div total_samples rate) else 0),
                             elapsed_seconds := 0,
                             elapsed_duration := 0\<rparr>
                  in case read_tags fi s4 of
                       (Some e, s5) \<Rightarrow> (Some e, s5)
                     | (None, s5) \<Rightarrow>
                         (let s6 = (emit (SDL_OpenAudioDevice rate (fmt_channels fi)) s5)
                                     \<lparr>audio_device := Some (device_id fi)\<rparr>
                          in if audio_device s6 = Some 0 then (Some DeviceError, s6)
                             else (None, pause_audio_device s6)))))"

text \<open>
  \<^verbatim>\<open>
  void Player::pause() {
    if (state_.load() == State::SWITCH_OFF) return;
    auto now = std::chrono::steady_clock::now();
    elapsed_duration_ +=
        std::chrono::duration_cast<std::chrono::milliseconds>(now - start_time_);
    if (state_.load() != State::PAUSE) last_volume_.store(get_volume());
    auto fade_future = fade_to(VOLUME_MUTE);
    fade_future.wait();
    pause_audio_device();
    state_.store(State::PAUSE);
  }
  \<close>
\<close>

definition pause :: "(real \<Rightarrow> float) \<Rightarrow> int \<Rightarrow> player \<Rightarrow> player" where
  "pause rnd now s =
     (if state s = SWITCH_OFF then s
      else
        (let s1 = s\<lparr>elapsed_duration :=
                      elapsed_duration s + trunc_div (now - start_time s) 1000000\<rparr>;
             s2 = (if state s1 \<noteq> PAUSE then s1\<lparr>last_volume := get_volume s1\<rparr> else s1);
             s3 = fade_to rnd VOLUME_MUTE DEFAULT_FADE_DURATION s2;
             s4 = pause_audio_device s3
         in s4\<lparr>state := PAUSE\<rparr>))"

text \<open>
  \<^verbatim>\<open>
  void Player::resume() {
    if (state_.load() == State::SWITCH_OFF) return;
    start_time_ = std::chrono::steady_clock::now();
    resume_audio_device();
    auto fade_future = fade_to(last_volume_.load());
    fade_future.wait();
    state_.store(State::PLAY);
  }
  \<close>
\<close>

definition resume :: "(real \<Rightarrow> float) \<Rightarrow> int \<Rightarrow> player \<Rightarrow> player" where
  "resume rnd now s =
     (if state s = SWITCH_OFF then s
      else
        (let s1 = s\<lparr>start_time := now\<rparr>;
             s2 = resume_audio_device s1;
             s3 = fade_to rnd (last_volume s2) DEFAULT_FADE_DURATION s2
         in s3\<lparr>state := PLAY\<rparr>))"

text \<open>
  \<^verbatim>\<open>
  void Player::set_playlist(std::unique_ptr<Playlist> playlist) {
    playlist_ = std::move(playlist);
    load_current();
  }
  void Player::load_current() {
    if (!playlist_) return;
    load_song(playlist_->current());
  }
  void Player::next_song() {
    if (playlist_) {
      pause();
      load_song(playlist_->next());
      resume();
    }
  }
  \<close>
  and \<open>prev_song\<close> with \<open>prev\<close> for \<open>next\<close>. The two clock readings of \<open>next_song\<close> are
  the one of \<open>pause\<close> and the one of \<open>resume\<close>.
\<close>

definition load_current :: "file_info \<Rightarrow> player \<Rightarrow> error option \<times> player" where
  "load_current fi s =
     (case playlist s of
        None \<Rightarrow> (None, s)
      | Some pl \<Rightarrow>
          (case current pl of
             Inl e \<Rightarrow> (Some e, s)
           | Inr path \<Rightarrow> load_song fi path s))"

definition set_playlist ::
  "file_info \<Rightarrow> playlist option \<Rightarrow> player \<Rightarrow> error option \<times> player" where
  "set_playlist fi pl s = load_current fi (s\<lparr>playlist := pl\<rparr>)"

definition next_song ::
  "(real \<Rightarrow> float) \<Rightarrow> file_info \<Rightarrow> int \<Rightarrow> int \<Rightarrow> player \<Rightarrow> error option \<times> player" where
  "next_song rnd fi now_pause now_resume s =
     (case playlist s of
        None \<Rightarrow> (None, s)
      | Some pl \<Rightarrow>
          (let s1 = pause rnd now_pause s;
               (pl', r) = next_track pl;
               s2 = s1\<lparr>playlist := Some pl'\<rparr>
           in case r of
                Inl e \<Rightarrow> (Some e, s2)
              | Inr path \<Rightarrow>
                  (case load_song fi path s2 of
                     (Some e, s3) \<Rightarrow> (Some e, s3)
                   | (None, s3) \<Rightarrow> (None, resume rnd now_resume s3))))"

definition prev_song ::
  "(real \<Rightarrow> float) \<Rightarrow> file_info \<Rightarrow> int \<Rightarrow> int \<Rightarrow> player \<Rightarrow> error option \<times> player" where
  "prev_song rnd fi now_pause now_resume s =
     (case playlist s of
        None \<Rightarrow> (None, s)
      | Some pl \<Rightarrow>
          (let s1 = pause rnd now_pause s;
               (pl', r) = prev_track pl;
               s2 = s1\<lparr>playlist := Some pl'\<rparr>
           in case r of
                Inl e \<Rightarrow> (Some e, s2)
              | Inr path \<Rightarrow>
                  (case load_song fi path s2 of
                     (Some e, s3) \<Rightarrow> (Some e, s3)
                   | (None, s3) \<Rightarrow> (None, resume rnd now_resume s3))))"


subsection \<open>Player: progress and seeking\<close>

text \<open>
  \<^verbatim>\<open>
  void Player::update_elapsed_time() {
    auto now = std::chrono::steady_clock::now();
    elapsed_seconds_ =
        static_cast<int>(std::chrono::duration_cast<std::chrono::seconds>(
                             elapsed_duration_ + (now - start_time_)).count());
  }
  auto Player::get_progress() const noexcept -> std::pair<int, int> {
    return {elapsed_seconds_.load(), total_seconds_};
  }
  \<close>
  The sum is in nanoseconds, the cast to seconds truncates.
\<close>

definition update_elapsed_time :: "int \<Rightarrow> player \<Rightarrow> player" where
  "update_elapsed_time now s =
     s\<lparr>elapsed_seconds :=
         to_int (trunc_div (elapsed_duration s * 1000000 + (now - start_time s)) 1000000000)\<rparr>"

definition get_progress :: "player \<Rightarrow> int \<times> int" where
  "get_progress s = (elapsed_seconds s, total_seconds s)"

definition is_playing :: "player \<Rightarrow> bool" where
  "is_playing s \<longleftrightarrow> state s = PLAY"

text \<open>
  \<^verbatim>\<open>
  void Player::seek_relative(int delta_seconds) {
    std::lock_guard<std::mutex> lock(audio_mutex_);
    if (state_.load() == State::SWITCH_OFF || !audio_device_.has_value()) return;
    const int current = elapsed_seconds_.load();
    const int target = std::clamp(current + delta_seconds, 0, total_seconds_);
    long rate = 0; int channels = 0; int encoding = 0;
    mpg123_getformat(mpg_handler_, &rate, &channels, &encoding);
    const auto sample_offset = static_cast<off_t>(target * rate);
    if (mpg123_seek(mpg_handler_, sample_offset, SEEK_SET) == MPG123_ERR) {
      std::cerr << "[WARN] Seek failed\n";
      return;
    }
    if (audio_device_.has_value()) SDL_ClearQueuedAudio(audio_device_.value());
    elapsed_duration_ = std::chrono::seconds(target);
    start_time_ = std::chrono::steady_clock::now();
    resume();
  }
  \<close>
  \<open>rate\<close> is what \<open>mpg123_getformat\<close> reports, \<open>seek_ret\<close> what \<open>mpg123_seek\<close> returns,
  \<open>now_seek\<close> and \<open>now_resume\<close> the clock as read here and in \<open>resume\<close>. The sum
  \<open>current + delta_seconds\<close> outside \<open>int\<close> and a clamp with an upper bound below the
  lower one are undefined.
\<close>

definition seek_warning :: string where
  "seek_warning = ''[WARN] Seek failed'' @ [CHR 0x0A]"

definition seek_target :: "int \<Rightarrow> player \<Rightarrow> int" where
  "seek_target delta_seconds s = clamp_int (elapsed_seconds s + delta_seconds) 0 (total_seconds s)"

definition seek_relative ::
  "(real \<Rightarrow> float) \<Rightarrow> int \<Rightarrow> int \<Rightarrow> int \<Rightarrow> int \<Rightarrow> int \<Rightarrow> player \<Rightarrow> error option \<times> player" where
  "seek_relative rnd delta_seconds rate seek_ret now_seek now_resume s =
     (if state s = SWITCH_OFF \<or> audio_device s = None then (None, s)
      else
        (let current = elapsed_seconds s
         in if \<not> int_range (current + delta_seconds) \<or> total_seconds s < 0
            then (Some UndefinedBehaviour, s)
            else
              (let target = clamp_int (current + delta_seconds) 0 (total_seconds s);
                   sample_offset = target * rate;
                   s1 = emit (Mpg123_seek sample_offset) s
               in if seek_ret = MPG123_ERR
                  then (None, emit (Cerr seek_warning) s1)
                  else
                    (let s2 = (case audio_device s1 of
                                 Some d \<Rightarrow> emit (SDL_ClearQueuedAudio d) s1
                               | None \<Rightarrow> s1);
                         s3 = s2\<lparr>elapsed_duration := target * 1000\<rparr>;
                         s4 = s3\<lparr>start_time := now_seek\<rparr>
                     in (None, resume rnd now_resume s4)))))"

text \<open>
  The destructor, up to the joining of the thread:
  \<^verbatim>\<open>
  state_.store(State::SWITCH_OFF);
  if (audio_device_.has_value()) {
    SDL_CloseAudioDevice(audio_device_.value());
    audio_device_.reset();
  }
  mpg123_close(mpg_handler_);
  \<close>
\<close>

definition destroy :: "player \<Rightarrow> player" where
  "destroy s =
     (let s1 = s\<lparr>state := SWITCH_OFF\<rparr>;
          s2 = (case audio_device s1 of
                  Some d \<Rightarrow> (emit (SDL_CloseAudioDevice d) s1)\<lparr>audio_device := None\<rparr>
                | None \<Rightarrow> s1)
      in emit Mpg123_close s2)"


subsection \<open>The streaming thread\<close>

text \<open>
  What one step of the thread obtains from outside: the readings of the steady clock
  (\<open>clock1\<close> in \<open>update_elapsed_time\<close> or in the \<open>pause\<close> of \<open>next_song\<close>, \<open>clock2\<close> in
  its \<open>resume\<close>), the rounding of \<open>float\<close> arithmetic, the reports of the libraries for
  the file the step opens, the result and byte count of \<open>mpg123_read\<close>, the backlog
  \<open>SDL_GetQueuedAudioSize\<close> reports and the stop token.
\<close>

record ext =
  clock1 :: int
  clock2 :: int
  rounding :: "real \<Rightarrow> float"
  opened :: file_info
  read_result :: int
  read_bytes :: nat
  queued_bytes :: nat
  stop_requested :: bool

text \<open>
  The thread is a machine over the places where \<open>player_thread\<close> reads the shared state:
  \<^verbatim>\<open>
  void Player::player_thread(const std::stop_token &token) {
    while (!token.stop_requested() && should_continue()) {          // Outer
      std::this_thread::sleep_for(std::chrono::milliseconds(SLEEP));
      if (state_.load() != State::PLAY) continue;
      resume_audio_device();
      stream_audio();
        // while ((state_.load() == State::PLAY) &&                  // Inner
        //        mpg123_read(..., &completed_bytes) == MPG123_OK) {
        //   update_elapsed_time();
        //   wait_until_buffer_has_space(DELAY_MS, BUFFER_MULTIPLIER);
        //     // while (state_.load() == State::PLAY) {             // Space
        //     //   buffer_ready = audio_device_.has_value() &&
        //     //     SDL_GetQueuedAudioSize(...) <= SDL_AUDIO_BUFFER_SIZE * multiplier;
        //     //   if (buffer_ready) break;
        //     //   SDL_Delay(delay_ms);
        //     // }
        //   apply_volume(...);
        //   if (audio_device_.has_value()) SDL_QueueAudio(..., completed_bytes);
        // }
      wait_for_buffer_to_drain();
        // while (state_.load() == State::PLAY) {                    // Drain
        //   if (!audio_device_.has_value()) break;
        //   if (SDL_GetQueuedAudioSize(audio_device_.value()) <= 0) break;
        //   SDL_Delay(DELAY_MS);
        // }
      if (state_.load() == State::PLAY) {
        mpg123_close(mpg_handler_);
        if (playlist_) next_song(); else state_.store(State::STOPPED);
      }
    }
  }
  \<close>
  A step runs from one such place to the next on the object as it finds it there; what
  other threads do to the object between two steps shows in the object the next step is
  applied to. \<open>Exited\<close> is the thread function having returned. A step yields the next place,
  the exception that leaves the thread function in this step, if any, and the object.
\<close>

datatype place = Outer | Inner | Space nat | Drain | Exited

definition BUFFER_MULTIPLIER :: nat where
  "BUFFER_MULTIPLIER = 32"

definition should_continue :: "player \<Rightarrow> bool" where
  "should_continue s \<longleftrightarrow> state s \<noteq> SWITCH_OFF"

definition queue_audio :: "nat \<Rightarrow> player \<Rightarrow> player" where
  "queue_audio n s = (case audio_device s of Some d \<Rightarrow> emit (SDL_QueueAudio d n) s | None \<Rightarrow> s)"

fun thread_step :: "ext \<Rightarrow> place \<Rightarrow> player \<Rightarrow> place \<times> error option \<times> player" where
  "thread_step x Outer s =
     (if stop_requested x \<or> \<not> should_continue s then (Exited, None, s)
      else if state s \<noteq> PLAY then (Outer, None, s)
      else (Inner, None, resume_audio_device s))"
| "thread_step x Inner s =
     (if state s = PLAY \<and> read_result x = MPG123_OK
      then (Space (read_bytes x), None, update_elapsed_time (clock1 x) s)
      else (Drain, None, s))"
| "thread_step x (Space n) s =
     (if state s = PLAY \<and>
         \<not> (audio_device s \<noteq> None \<and>
            queued_bytes x \<le> SDL_AUDIO_BUFFER_SIZE * BUFFER_MULTIPLIER)
      then (Space n, None, s)
      else (Inner, None, queue_audio n s))"
| "thread_step x Drain s =
     (if state s = PLAY \<and> audio_device s \<noteq> None \<and> \<not> queued_bytes x \<le> 0
      then (Drain, None, s)
      else if state s = PLAY then
        (let s1 = emit Mpg123_close s
         in if playlist s1 \<noteq> None
            then (case next_song (rounding x) (opened x) (clock1 x) (clock2 x) s1 of
                    (e, s2) \<Rightarrow> (Outer, e, s2))
            else (Outer, None, s1\<lparr>state := STOPPED\<rparr>))
      else (Outer, None, s))"
| "thread_step x Exited s = (Exited, None, s)"


subsection \<open>Auxiliary notions for the statements\<close>

text \<open>A volume inside the unit interval.\<close>

fun in_unit :: "float \<Rightarrow> bool" where
  "in_unit (Num r) \<longleftrightarrow> 0 \<le> r \<and> r \<le> 1"
| "in_unit a \<longleftrightarrow> False"

text \<open>A playlist of three songs in their sorted order, as the constructor leaves it.\<close>

definition playlist3 :: playlist where
  "playlist3 =
     \<lparr>songs = [''a.mp3'', ''b.mp3'', ''c.mp3''], shuffle_order = [0, 1, 2], index = 0\<rparr>"

text \<open>
  The values the progress query is about are not negative; the decoder reports a positive
  rate and a length that is \<open>MPG123_ERR\<close> or a sample count whose seconds fit an \<open>int\<close>;
  the seconds \<open>update_elapsed_time\<close> casts at clock reading \<open>now\<close> fit an \<open>int\<close>.
\<close>

definition progress_ok :: "player \<Rightarrow> bool" where
  "progress_ok s \<longleftrightarrow>
     0 \<le> elapsed_seconds s \<and> 0 \<le> total_seconds s \<and> 0 \<le> elapsed_duration s"

definition file_ok :: "file_info \<Rightarrow> bool" where
  "file_ok fi \<longleftrightarrow>
     0 < fmt_rate fi \<and>
     (length_samples fi = MPG123_ERR \<or>
      0 \<le> length_samples fi \<and> length_samples fi div fmt_rate fi \<le> INT_MAX)"

definition count_fits :: "int \<Rightarrow> player \<Rightarrow> bool" where
  "count_fits now s \<longleftrightarrow>
     (elapsed_duration s * 1000000 + (now - start_time s)) div 1000000000 \<le> INT_MAX"

text \<open>
  The error the reading of the tags of a file ends with, the one \<open>load_song\<close> ends with
  for a file, and the one \<open>next_song\<close> ends with when the streaming thread advances the
  playlist.
\<close>

definition tag_error :: "file_info \<Rightarrow> error option" where
  "tag_error fi = fst (read_tags fi Player)"

definition load_error :: "file_info \<Rightarrow> string \<Rightarrow> error option" where
  "load_error fi path =
     (if \<not> open_ok fi then Some (LoadError (''Failed to open '' @ path))
      else if length_samples fi \<noteq> MPG123_ERR \<and> fmt_rate fi = 0 then Some UndefinedBehaviour
      else if tag_error fi \<noteq> None then Some UndefinedBehaviour
      else if device_id fi = 0 then Some DeviceError
      else None)"

definition advance_error :: "ext \<Rightarrow> player \<Rightarrow> error option" where
  "advance_error x s =
     (case playlist s of
        None \<Rightarrow> None
      | Some pl \<Rightarrow>
          (case snd (next_track pl) of
             Inl e \<Rightarrow> Some e
           | Inr path \<Rightarrow> load_error (opened x) path))"

text \<open>The thread is at the end of a track: playing, nothing left to drain.\<close>

definition end_of_track :: "ext \<Rightarrow> place \<Rightarrow> player \<Rightarrow> bool" where
  "end_of_track x p s \<longleftrightarrow>
     p = Drain \<and> state s = PLAY \<and> (audio_device s = None \<or> queued_bytes x = 0)"

text \<open>
  Concrete inputs: a file of ten seconds of stereo audio at 44100 Hz on device 2; an
  environment at clock reading 0 in which every library call succeeds; a player that has
  loaded the file and has been playing it for three seconds; the player after
  \<open>load_song\<close> of the file and \<open>resume\<close> at clock reading 0; the player after
  \<open>set_playlist\<close> of the three songs and \<open>resume\<close> at clock reading 0; the
  environment at clock reading twelve seconds.
\<close>

definition track10 :: file_info where
  "track10 = \<lparr>open_ok = True, fmt_rate = 44100, fmt_channels = 2, length_samples = 441000,
               has_id3 = False, id3v2 = None, id3v1 = None, device_id = 2\<rparr>"

definition ext0 :: ext where
  "ext0 = \<lparr>clock1 = 0, clock2 = 0, rounding = Num, opened = track10,
            read_result = MPG123_OK, read_bytes = 8192, queued_bytes = 0,
            stop_requested = False\<rparr>"

definition playing10 :: player where
  "playing10 =
     Player\<lparr>state := PLAY, audio_device := Some 2, sample_rate := 44100,
            total_seconds := 10, elapsed_seconds := 3\<rparr>"

definition ext12 :: ext where
  "ext12 = ext0\<lparr>clock1 := 12000000000, clock2 := 12000000000\<rparr>"

definition started10 :: player where
  "started10 = resume Num 0 (snd (load_song track10 ''a.mp3'' Player))"

definition started3 :: player where
  "started3 = resume Num 0 (snd (set_playlist track10 (Some playlist3) Player))"


section \<open>Playlist: navigation and reshuffling\<close>

lemma size_add_small: "a + b < SIZE_MOD \<Longrightarrow> size_add a b = a + b"
  by (simp add: size_add_def)


lemma shuffle_order_length: "playlist_inv p \<Longrightarrow> length (shuffle_order p) = length (songs p)"
  unfolding playlist_inv_def by (metis length_upt mset_eq_length minus_nat.diff_0)

lemma shuffle_order_range:
  assumes "playlist_inv p" "i < length (songs p)"
  shows "shuffle_order p ! i < length (songs p)"
proof -
  have "shuffle_order p ! i \<in> set (shuffle_order p)"
    using assms shuffle_order_length by simp
  also have "set (shuffle_order p) = set [0..<length (songs p)]"
    using assms(1) unfolding playlist_inv_def by (metis mset_eq_setD)
  finally show ?thesis by simp
qed

lemma current_ok:
  assumes "playlist_inv p"
  shows "current p = Inr (songs p ! (shuffle_order p ! index p))"
    and "songs p ! (shuffle_order p ! index p) \<noteq> []"
proof -
  have i: "index p < length (songs p)" using assms by (simp add: playlist_inv_def)
  have r: "shuffle_order p ! index p < length (songs p)"
    using assms i by (rule shuffle_order_range)
  show "current p = Inr (songs p ! (shuffle_order p ! index p))"
    using i r shuffle_order_length[OF assms] by (simp add: current_def)
  have "songs p ! (shuffle_order p ! index p) \<in> set (songs p)" using r by simp
  then show "songs p ! (shuffle_order p ! index p) \<noteq> []"
    using assms unfolding playlist_inv_def by metis
qed






lemma prev_track_result: "playlist_inv p \<Longrightarrow> snd (prev_track p) = current (fst (prev_track p))"
  by (auto simp add: prev_track_def Let_def playlist_inv_def)


lemma extension_mp3_nonempty: "extension path = ''.mp3'' \<Longrightarrow> path \<noteq> []"
  by (auto simp add: extension_def filename_def Let_def)

lemma load_entries_inv:
  "shuffle_order p = [0..<length (songs p)] \<Longrightarrow> [] \<notin> set (songs p) \<Longrightarrow>
   shuffle_order (load_entries es p) = [0..<length (songs (load_entries es p))] \<and>
   [] \<notin> set (songs (load_entries es p)) \<and>
   length (songs (load_entries es p)) \<le> length (songs p) + length es \<and>
   index (load_entries es p) = index p"
proof (induction es arbitrary: p)
  case Nil
  then show ?case by simp
next
  case (Cons e es)
  obtain path regular where e: "e = (path, regular)" by (cases e)
  let ?q = "if regular \<and> extension path = ''.mp3''
            then p\<lparr>songs := songs p @ [path],
                   shuffle_order := shuffle_order p @ [length (songs p)]\<rparr>
            else p"
  have 1: "shuffle_order ?q = [0..<length (songs ?q)]" using Cons.prems(1) by simp
  have 2: "[] \<notin> set (songs ?q)"
    using Cons.prems(2) extension_mp3_nonempty by auto
  have 3: "length (songs ?q) \<le> length (songs p) + 1" by simp
  have 4: "index ?q = index p" by simp
  from Cons.IH[OF 1 2] 3 4 show ?case unfolding e by (simp del: upt_Suc)
qed

lemma Playlist_inv:
  assumes "Playlist folder dir = Inr p" "\<forall>es. dir = Some es \<longrightarrow> length es < SIZE_MOD"
  shows "playlist_inv p"
proof -
  obtain es where d: "dir = Some es" using assms(1) by (cases dir) (simp_all add: Playlist_def)
  let ?e = "\<lparr>songs = [], shuffle_order = [], index = 0\<rparr>"
  let ?q = "load_entries es ?e"
  have p: "p = ?q\<lparr>songs := sort (songs ?q)\<rparr>" and ne: "sort (songs ?q) \<noteq> []"
    using assms(1) unfolding d by (auto simp add: Playlist_def load_songs_def Let_def split: if_splits)
  have q: "shuffle_order ?q = [0..<length (songs ?q)]" "[] \<notin> set (songs ?q)"
    "length (songs ?q) \<le> length es" "index ?q = 0"
    using load_entries_inv[of ?e es] by simp_all
  have ne2: "songs ?q \<noteq> []" using ne by auto
  have "length es < SIZE_MOD" using assms(2) d by simp
  then show ?thesis using q ne ne2 unfolding p playlist_inv_def by (simp del: upt_Suc)
qed

lemma exchange_mset: "i < length xs \<Longrightarrow> j < length xs \<Longrightarrow> mset (exchange i j xs) = mset xs"
  unfolding exchange_def by (simp add: mset_swap)

lemma exchange_length: "length (exchange i j xs) = length xs"
  by (simp add: exchange_def)

lemma shuffle_fold_mset:
  "\<forall>i \<in> set is. i < length xs \<Longrightarrow>
   mset (foldl (\<lambda>a i. exchange i (draw i mod (i + 1)) a) xs is) = mset xs \<and>
   length (foldl (\<lambda>a i. exchange i (draw i mod (i + 1)) a) xs is) = length xs"
proof (induction "is" arbitrary: xs)
  case Nil
  then show ?case by simp
next
  case (Cons i "is")
  have i: "i < length xs" using Cons.prems by simp
  have "draw i mod (i + 1) < i + 1" by simp
  then have j: "draw i mod (i + 1) < length xs" using i by arith
  have m: "mset (exchange i (draw i mod (i + 1)) xs) = mset xs" using i j by (rule exchange_mset)
  have "\<forall>k\<in>set is. k < length (exchange i (draw i mod (i + 1)) xs)"
    using Cons.prems by (simp add: exchange_length)
  from Cons.IH[OF this] m show ?case by (simp add: exchange_length)
qed

lemma std_shuffle_mset: "mset (std_shuffle draw xs) = mset xs"
  unfolding std_shuffle_def using shuffle_fold_mset[of "[1..<length xs]" xs draw] by simp

lemma reshuffle_inv:
  assumes "playlist_inv p"
  shows "playlist_inv (reshuffle draw p)"
  using assms by (simp add: playlist_inv_def reshuffle_def std_shuffle_mset del: upt_Suc)

lemma playlist3_inv: "playlist_inv playlist3"
  by (simp add: playlist_inv_def playlist3_def SIZE_MOD_def numeral_3_eq_3)



text \<open>
  Claim C9. \<open>has_next()\<close> is false exactly at the last cursor position and
  \<open>has_prev()\<close> exactly at the first one. Both are functions of the playlist that
  return a truth value only, so neither moves the cursor.
\<close>

theorem has_next_has_prev_boundaries:
  assumes "playlist_inv p"
  shows "(has_next p \<longleftrightarrow> index p \<noteq> length (songs p) - 1) \<and>
         (has_prev p \<longleftrightarrow> index p \<noteq> 0)"
proof -
  have n: "index p < length (songs p)" "length (songs p) < SIZE_MOD"
    using assms by (simp_all add: playlist_inv_def)
  then have "size_add (index p) 1 = index p + 1" by (intro size_add_small) simp
  then show ?thesis using n by (auto simp add: has_next_def has_prev_def)
qed

theorem has_next_has_prev_boundaries_witness:
  "playlist_inv playlist3 \<and> has_next playlist3 \<and> \<not> has_prev playlist3 \<and>
   \<not> has_next (playlist3\<lparr>index := 2\<rparr>) \<and> has_prev (playlist3\<lparr>index := 2\<rparr>)"
proof -
  have i: "playlist_inv playlist3" "playlist_inv (playlist3\<lparr>index := 2\<rparr>)"
    by (simp_all add: playlist_inv_def playlist3_def SIZE_MOD_def numeral_3_eq_3)
  show ?thesis
    using i has_next_has_prev_boundaries[OF i(1)] has_next_has_prev_boundaries[OF i(2)]
    by (simp add: playlist3_def)
qed

text \<open>
  Claim C8. After \<open>reshuffle()\<close>, whatever the random engine draws, the cursor is at
  position 0, \<open>current()\<close> returns a song of the playlist that is not the empty string,
  and the shuffle order holds every index below \<open>N\<close> exactly once.
\<close>

theorem reshuffle_resets_and_permutes:
  assumes "playlist_inv p"
  shows "index (reshuffle draw p) = 0 \<and>
         (\<exists>path. current (reshuffle draw p) = Inr path \<and> path \<noteq> [] \<and> path \<in> set (songs p)) \<and>
         length (shuffle_order (reshuffle draw p)) = length (songs p) \<and>
         distinct (shuffle_order (reshuffle draw p)) \<and>
         set (shuffle_order (reshuffle draw p)) = {0..<length (songs p)}"
proof -
  let ?q = "reshuffle draw p"
  have q: "playlist_inv ?q" using assms by (rule reshuffle_inv)
  have s: "songs ?q = songs p" by (simp add: reshuffle_def)
  have m: "mset (shuffle_order ?q) = mset [0..<length (songs p)]"
    by (simp add: reshuffle_def std_shuffle_mset del: upt_Suc)
  have d: "distinct (shuffle_order ?q)"
    using m by (metis distinct_upt mset_eq_imp_distinct_iff)
  have e: "set (shuffle_order ?q) = {0..<length (songs p)}"
    using m by (metis mset_eq_setD set_upt)
  have l: "length (shuffle_order ?q) = length (songs p)"
    using shuffle_order_length[OF q] s by simp
  have r: "shuffle_order ?q ! index ?q < length (songs p)"
    using shuffle_order_range[OF q] q s by (simp add: playlist_inv_def)
  have c: "current ?q = Inr (songs p ! (shuffle_order ?q ! index ?q))"
    "songs p ! (shuffle_order ?q ! index ?q) \<noteq> []"
    using current_ok[OF q] s by simp_all
  have "songs p ! (shuffle_order ?q ! index ?q) \<in> set (songs p)" using r by simp
  then show ?thesis using c d e l by (simp add: reshuffle_def)
qed

theorem reshuffle_resets_and_permutes_witness:
  "playlist_inv (playlist3\<lparr>index := 2\<rparr>) \<and>
   index (reshuffle (\<lambda>i. 0) (playlist3\<lparr>index := 2\<rparr>)) = 0 \<and>
   shuffle_order (reshuffle (\<lambda>i. 0) (playlist3\<lparr>index := 2\<rparr>)) = [2, 0, 1] \<and>
   current (reshuffle (\<lambda>i. 0) (playlist3\<lparr>index := 2\<rparr>)) = Inr ''c.mp3''"
proof -
  have i: "playlist_inv (playlist3\<lparr>index := 2\<rparr>)"
    by (simp add: playlist_inv_def playlist3_def SIZE_MOD_def numeral_3_eq_3)
  have o: "shuffle_order (reshuffle (\<lambda>i. 0) (playlist3\<lparr>index := 2\<rparr>)) = [2, 0, 1]"
    by (simp add: reshuffle_def std_shuffle_def exchange_def playlist3_def numeral_3_eq_3)
  have c: "current (reshuffle (\<lambda>i. 0) (playlist3\<lparr>index := 2\<rparr>)) = Inr ''c.mp3''"
    unfolding current_def o by (simp add: reshuffle_def playlist3_def)
  show ?thesis using i o c reshuffle_resets_and_permutes[OF i, of "\<lambda>i. 0"] by simp
qed


section \<open>Volume\<close>

lemma clamp_float_Num: "clamp_float (Num v) VOLUME_MUTE VOLUME_FULL = Num (clamp_spec v 0 1)"
  by (simp add: clamp_float_def clamp_spec_def VOLUME_MUTE_def VOLUME_FULL_def)

lemma clamp_float_idem:
  "clamp_float (clamp_float a VOLUME_MUTE VOLUME_FULL) VOLUME_MUTE VOLUME_FULL =
   clamp_float a VOLUME_MUTE VOLUME_FULL"
  by (cases a) (simp_all add: clamp_float_def VOLUME_MUTE_def VOLUME_FULL_def)

lemma clamp_float_unit: "a \<noteq> NaN \<Longrightarrow> in_unit (clamp_float a VOLUME_MUTE VOLUME_FULL)"
  by (cases a) (simp_all add: clamp_float_def VOLUME_MUTE_def VOLUME_FULL_def)

text \<open>
  Claim C6. For every real \<open>v\<close>, \<open>set_volume(v)\<close> stores the clamp of \<open>v\<close> to \<open>[0, 1]\<close>, and
  what it stores lies in \<open>[0, 1]\<close>; the infinities are stored as the bounds.
\<close>

theorem set_volume_clamps:
  "volume (set_volume (Num v) s) = Num (clamp_spec v 0 1) \<and>
   in_unit (get_volume (set_volume (Num v) s)) \<and>
   volume (set_volume PosInf s) = Num 1 \<and>
   volume (set_volume NegInf s) = Num 0"
proof -
  have "in_unit (Num (clamp_spec v 0 1))" by (simp add: clamp_spec_def)
  moreover have "clamp_float PosInf VOLUME_MUTE VOLUME_FULL = Num 1"
    "clamp_float NegInf VOLUME_MUTE VOLUME_FULL = Num 0"
    by (simp_all add: clamp_float_def VOLUME_MUTE_def VOLUME_FULL_def)
  ultimately show ?thesis by (simp add: set_volume_def get_volume_def clamp_float_Num)
qed

text \<open>
  Claim C7. \<open>adjust_volume(delta)\<close> is \<open>set_volume(get_volume() + delta)\<close>; clamping
  what it stored once more changes nothing; and on numbers it stores the clamp to
  \<open>[0, 1]\<close> of the rounded sum, for every rounding \<open>r\<close> of the addition.
\<close>

theorem adjust_volume_is_clamped_set:
  "adjust_volume rnd delta s = set_volume (float_add rnd (get_volume s) delta) s \<and>
   set_volume (get_volume (adjust_volume rnd delta s)) (adjust_volume rnd delta s) =
     adjust_volume rnd delta s \<and>
   volume (adjust_volume (\<lambda>x. Num (r x)) (Num d) (s\<lparr>volume := Num v\<rparr>)) =
     Num (clamp_spec (r (v + d)) 0 1)"
  by (simp add: adjust_volume_def set_volume_def get_volume_def clamp_float_idem clamp_float_Num)

lemma set_volume_only: "set_volume a s = s\<lparr>volume := clamp_float a VOLUME_MUTE VOLUME_FULL\<rparr>"
  by (simp add: set_volume_def)

lemma fade_fold:
  "\<exists>b. fold (\<lambda>i t. set_volume (float_add rnd (get_volume t) stp) t) is s = s\<lparr>volume := b\<rparr>"
proof (induction "is" arbitrary: s)
  case Nil
  have "s = s\<lparr>volume := volume s\<rparr>" by simp
  then show ?case by (metis fold_simps(1))
next
  case (Cons i "is")
  obtain b where
    "fold (\<lambda>i t. set_volume (float_add rnd (get_volume t) stp) t) is
       (set_volume (float_add rnd (get_volume s) stp) s) =
     (set_volume (float_add rnd (get_volume s) stp) s)\<lparr>volume := b\<rparr>"
    using Cons.IH by blast
  then show ?case by (auto simp add: set_volume_def)
qed

lemma fade_to_only:
  "fade_to rnd target d s = s\<lparr>volume := clamp_float target VOLUME_MUTE VOLUME_FULL\<rparr>"
proof -
  obtain b where
    "fold (\<lambda>i t. set_volume (float_add rnd (get_volume t)
        (float_div_pos rnd (float_sub rnd target (get_volume s)) N_STEPS)) t) [0..<N_STEPS] s =
     s\<lparr>volume := b\<rparr>"
    using fade_fold by blast
  then show ?thesis by (simp add: fade_to_def Let_def set_volume_def)
qed


section \<open>Player: seeking\<close>

lemma clamp_int_bounds: "lo \<le> hi \<Longrightarrow> lo \<le> clamp_int v lo hi \<and> clamp_int v lo hi \<le> hi"
  by (simp add: clamp_int_def)

lemma clamp_int_max_min: "lo \<le> hi \<Longrightarrow> clamp_int v lo hi = max lo (min hi v)"
  by (simp add: clamp_int_def max_def min_def)

lemma pause_only:
  "pause rnd now s =
     (if state s = SWITCH_OFF then s
      else s\<lparr>elapsed_duration := elapsed_duration s + trunc_div (now - start_time s) 1000000,
             last_volume := (if state s \<noteq> PAUSE then volume s else last_volume s),
             volume := Num 0,
             calls := (case audio_device s of
                         Some d \<Rightarrow> calls s @ [SDL_PauseAudioDevice d True] | None \<Rightarrow> calls s),
             state := PAUSE\<rparr>)"
  by (cases "audio_device s")
     (simp_all add: pause_def Let_def fade_to_only pause_audio_device_def emit_def get_volume_def
        clamp_float_def VOLUME_MUTE_def VOLUME_FULL_def)

lemma resume_only:
  "resume rnd now s =
     (if state s = SWITCH_OFF then s
      else s\<lparr>start_time := now,
             calls := (case audio_device s of
                         Some d \<Rightarrow> calls s @ [SDL_PauseAudioDevice d False] | None \<Rightarrow> calls s),
             volume := clamp_float (last_volume s) VOLUME_MUTE VOLUME_FULL,
             state := PLAY\<rparr>)"
  by (cases "audio_device s")
     (simp_all add: resume_def Let_def fade_to_only resume_audio_device_def emit_def)

text \<open>
  Claim C3. While playing, with the device open and a sum \<open>current + delta\<close> that fits an
  \<open>int\<close>, a \<open>seek_relative(delta)\<close> the decoder accepts computes the target as the clamp
  of \<open>current + delta\<close> to \<open>[0, total_seconds]\<close>, calls \<open>mpg123_seek\<close> at the sample offset
  of the target, then \<open>SDL_ClearQueuedAudio\<close>, sets the elapsed accumulator to exactly the
  target (in milliseconds), sets \<open>start_time\<close> to the clock reading of \<open>resume\<close>, resumes
  the device and stays playing; nothing else changes but the volume, which \<open>resume\<close>
  fades to \<open>last_volume\<close>.
\<close>

theorem seek_relative_accepted:
  assumes "state s = PLAY" "audio_device s = Some d" "seek_ret \<noteq> MPG123_ERR"
    and "int_range (elapsed_seconds s + delta)" "0 \<le> total_seconds s"
  shows "seek_target delta s = max 0 (min (total_seconds s) (elapsed_seconds s + delta)) \<and>
         0 \<le> seek_target delta s \<and> seek_target delta s \<le> total_seconds s \<and>
         seek_relative rnd delta rate seek_ret now_seek now_resume s =
           (None,
            s\<lparr>calls := calls s @ [Mpg123_seek (seek_target delta s * rate),
                                  SDL_ClearQueuedAudio d, SDL_PauseAudioDevice d False],
              elapsed_duration := seek_target delta s * 1000,
              start_time := now_resume,
              volume := clamp_float (last_volume s) VOLUME_MUTE VOLUME_FULL\<rparr>)"
proof -
  have t: "seek_target delta s = max 0 (min (total_seconds s) (elapsed_seconds s + delta))"
    unfolding seek_target_def using assms(5) by (rule clamp_int_max_min)
  have b: "0 \<le> seek_target delta s \<and> seek_target delta s \<le> total_seconds s"
    unfolding seek_target_def using assms(5) by (rule clamp_int_bounds)
  have "seek_relative rnd delta rate seek_ret now_seek now_resume s =
           (None,
            s\<lparr>calls := calls s @ [Mpg123_seek (seek_target delta s * rate),
                                  SDL_ClearQueuedAudio d, SDL_PauseAudioDevice d False],
              elapsed_duration := seek_target delta s * 1000,
              start_time := now_resume,
              volume := clamp_float (last_volume s) VOLUME_MUTE VOLUME_FULL\<rparr>)"
    using assms
    by (simp add: seek_relative_def Let_def resume_only emit_def seek_target_def)
  with t b show ?thesis by blast
qed

theorem seek_relative_accepted_witness:
  "state playing10 = PLAY \<and> audio_device playing10 = Some 2 \<and> (352800::int) \<noteq> MPG123_ERR \<and>
   int_range (elapsed_seconds playing10 + 5) \<and> 0 \<le> total_seconds playing10 \<and>
   seek_target 5 playing10 = 8 \<and>
   seek_relative Num 5 44100 352800 100 101 playing10 =
     (None,
      playing10\<lparr>calls := [Mpg123_seek 352800, SDL_ClearQueuedAudio 2, SDL_PauseAudioDevice 2 False],
                elapsed_duration := 8000, start_time := 101\<rparr>)"
proof -
  have h: "state playing10 = PLAY" "audio_device playing10 = Some 2"
    "(352800::int) \<noteq> MPG123_ERR" "int_range (elapsed_seconds playing10 + 5)"
    "0 \<le> total_seconds playing10"
    by (simp_all add: playing10_def Player_def MPG123_ERR_def int_range_def INT_MIN_def INT_MAX_def)
  have t: "seek_target 5 playing10 = 8" "calls playing10 = []"
    "clamp_float (last_volume playing10) VOLUME_MUTE VOLUME_FULL = volume playing10"
    by (simp_all add: seek_target_def clamp_int_def playing10_def Player_def clamp_float_def
          VOLUME_FULL_def VOLUME_MUTE_def)
  show ?thesis
    using h seek_relative_accepted[OF h, of Num 44100 100 101] unfolding t by simp
qed

text \<open>
  Claim C4. When \<open>mpg123_seek\<close> returns \<open>MPG123_ERR\<close>, \<open>seek_relative\<close> returns without an
  exception, having made the rejected seek call and written the warning; every member
  variable, the elapsed accumulator and \<open>start_time\<close> among them, is as before, and the
  queued output is not cleared.
\<close>

theorem seek_relative_rejected:
  assumes "int_range (elapsed_seconds s + delta)" "0 \<le> total_seconds s"
  shows "seek_relative rnd delta rate MPG123_ERR now_seek now_resume s =
           (None,
            if state s = SWITCH_OFF \<or> audio_device s = None then s
            else s\<lparr>calls := calls s @ [Mpg123_seek (seek_target delta s * rate),
                                       Cerr seek_warning]\<rparr>) \<and>
         (snd (seek_relative rnd delta rate MPG123_ERR now_seek now_resume s))\<lparr>calls := calls s\<rparr> = s"
  using assms by (simp add: seek_relative_def Let_def emit_def seek_target_def)

theorem seek_relative_rejected_witness:
  "int_range (elapsed_seconds playing10 + 5) \<and> 0 \<le> total_seconds playing10 \<and>
   seek_relative Num 5 44100 MPG123_ERR 100 101 playing10 =
     (None, playing10\<lparr>calls := [Mpg123_seek 352800, Cerr seek_warning]\<rparr>)"
proof -
  have h: "int_range (elapsed_seconds playing10 + 5)" "0 \<le> total_seconds playing10"
    by (simp_all add: playing10_def Player_def int_range_def INT_MIN_def INT_MAX_def)
  have t: "seek_target 5 playing10 = 8" "calls playing10 = []"
    "state playing10 = PLAY" "audio_device playing10 = Some 2"
    by (simp_all add: seek_target_def clamp_int_def playing10_def Player_def)
  show ?thesis
    using h seek_relative_rejected[OF h, of Num 44100 100 101] unfolding t by simp
qed

text \<open>
  Claim C10. With \<open>total_seconds\<close> stored as 0, the target of every \<open>seek_relative(delta)\<close>
  is 0 whatever the sign of \<open>delta\<close>: the seek call goes to sample offset 0 and, when the
  decoder accepts it, the elapsed accumulator becomes 0. A file whose length
  \<open>mpg123_length\<close> cannot tell is loaded with \<open>total_seconds = 0\<close>.
\<close>

theorem seek_unknown_duration_goes_to_start:
  assumes "total_seconds s = 0" "state s \<noteq> SWITCH_OFF" "audio_device s = Some d"
    and "int_range (elapsed_seconds s + delta)"
  shows "seek_target delta s = 0 \<and>
         seek_relative rnd delta rate seek_ret now_seek now_resume s =
           (None,
            if seek_ret = MPG123_ERR
            then s\<lparr>calls := calls s @ [Mpg123_seek 0, Cerr seek_warning]\<rparr>
            else s\<lparr>calls := calls s @ [Mpg123_seek 0, SDL_ClearQueuedAudio d,
                                       SDL_PauseAudioDevice d False],
                   elapsed_duration := 0,
                   start_time := now_resume,
                   volume := clamp_float (last_volume s) VOLUME_MUTE VOLUME_FULL,
                   state := PLAY\<rparr>) \<and>
         (open_ok fi \<and> length_samples fi = MPG123_ERR \<longrightarrow>
            total_seconds (snd (load_song fi path s0)) = 0)"
proof -
  have t: "clamp_int (elapsed_seconds s + delta) 0 0 = 0" by (simp add: clamp_int_def)
  have l: "open_ok fi \<and> length_samples fi = MPG123_ERR \<longrightarrow>
            total_seconds (snd (load_song fi path s0)) = 0"
    by (cases "audio_device s0")
       (auto simp add: load_song_def Let_def read_tags_def emit_def pause_audio_device_def
          split: option.splits prod.splits)
  show ?thesis using assms l
    by (simp add: seek_relative_def Let_def resume_only emit_def seek_target_def t)
qed

theorem seek_unknown_duration_goes_to_start_witness:
  "total_seconds (playing10\<lparr>total_seconds := 0\<rparr>) = 0 \<and>
   state (playing10\<lparr>total_seconds := 0\<rparr>) \<noteq> SWITCH_OFF \<and>
   audio_device (playing10\<lparr>total_seconds := 0\<rparr>) = Some 2 \<and>
   int_range (elapsed_seconds (playing10\<lparr>total_seconds := 0\<rparr>) + 5) \<and>
   seek_target 5 (playing10\<lparr>total_seconds := 0\<rparr>) = 0 \<and>
   elapsed_duration (snd (seek_relative Num 5 44100 0 100 101 (playing10\<lparr>total_seconds := 0\<rparr>))) = 0 \<and>
   open_ok (track10\<lparr>length_samples := MPG123_ERR\<rparr>) \<and>
   length_samples (track10\<lparr>length_samples := MPG123_ERR\<rparr>) = MPG123_ERR \<and>
   total_seconds (snd (load_song (track10\<lparr>length_samples := MPG123_ERR\<rparr>) ''a.mp3'' Player)) = 0"
proof -
  have h: "total_seconds (playing10\<lparr>total_seconds := 0\<rparr>) = 0"
    "state (playing10\<lparr>total_seconds := 0\<rparr>) \<noteq> SWITCH_OFF"
    "audio_device (playing10\<lparr>total_seconds := 0\<rparr>) = Some 2"
    "int_range (elapsed_seconds (playing10\<lparr>total_seconds := 0\<rparr>) + 5)"
    by (simp_all add: playing10_def Player_def int_range_def INT_MIN_def INT_MAX_def)
  have f: "open_ok (track10\<lparr>length_samples := MPG123_ERR\<rparr>)"
    "length_samples (track10\<lparr>length_samples := MPG123_ERR\<rparr>) = MPG123_ERR"
    "(0::int) \<noteq> MPG123_ERR"
    by (simp_all add: track10_def MPG123_ERR_def)
  show ?thesis
    using h f
      seek_unknown_duration_goes_to_start[OF h, of Num 44100 0 100 101
        "track10\<lparr>length_samples := MPG123_ERR\<rparr>" "''a.mp3''" Player]
    by simp
qed


section \<open>Player: the values of the progress query\<close>

lemma to_int_id: "0 \<le> v \<Longrightarrow> v \<le> INT_MAX \<Longrightarrow> to_int v = v"
  by (simp add: to_int_def INT_MAX_def)

lemma trunc_div_nonneg: "0 \<le> a \<Longrightarrow> 0 < b \<Longrightarrow> trunc_div a b = a div b"
  by (simp add: trunc_div_def)

lemma read_tags_progress:
  "elapsed_seconds (snd (read_tags fi s)) = elapsed_seconds s \<and>
   total_seconds (snd (read_tags fi s)) = total_seconds s \<and>
   elapsed_duration (snd (read_tags fi s)) = elapsed_duration s \<and>
   state (snd (read_tags fi s)) = state s \<and>
   audio_device (snd (read_tags fi s)) = audio_device s \<and>
   calls (snd (read_tags fi s)) = calls s"
  by (simp add: read_tags_def split: option.splits prod.splits)

lemma read_tags_error: "fst (read_tags fi s) = tag_error fi"
  by (simp add: tag_error_def read_tags_def split: option.splits prod.splits)

lemma tag_error_cases: "tag_error fi = None \<or> tag_error fi = Some UndefinedBehaviour"
  by (simp add: tag_error_def read_tags_def split: option.splits prod.splits)

lemma pause_progress:
  assumes "progress_ok s" "start_time s \<le> now"
  shows "progress_ok (pause rnd now s)"
proof -
  have "0 \<le> now - start_time s" using assms(2) by simp
  then have "0 \<le> trunc_div (now - start_time s) 1000000"
    by (simp add: trunc_div_nonneg pos_imp_zdiv_nonneg_iff)
  then show ?thesis using assms(1) by (simp add: pause_only progress_ok_def)
qed

lemma resume_progress: "progress_ok s \<Longrightarrow> progress_ok (resume rnd now s)"
  by (simp add: resume_only progress_ok_def)

lemma load_song_cases:
  "load_song fi path s =
     (let s2 = emit (Mpg123_open path) (pause_audio_device (s\<lparr>state := STOPPED\<rparr>));
          s3 = s2\<lparr>sample_rate := to_int (fmt_rate fi)\<rparr>;
          s4 = s3\<lparr>total_seconds :=
                     (if length_samples fi \<noteq> MPG123_ERR
                      then to_int (trunc_div (length_samples fi) (fmt_rate fi)) else 0),
                   elapsed_seconds := 0, elapsed_duration := 0\<rparr>;
          s5 = snd (read_tags fi s4);
          s6 = (emit (SDL_OpenAudioDevice (fmt_rate fi) (fmt_channels fi)) s5)
                 \<lparr>audio_device := Some (device_id fi)\<rparr>
      in if \<not> open_ok fi then (Some (LoadError (''Failed to open '' @ path)), s2)
         else if length_samples fi \<noteq> MPG123_ERR \<and> fmt_rate fi = 0
         then (Some UndefinedBehaviour, s3)
         else if fst (read_tags fi s4) \<noteq> None then (fst (read_tags fi s4), s5)
         else if device_id fi = 0 then (Some DeviceError, s6)
         else (None, pause_audio_device s6))"
  by (auto simp add: load_song_def Let_def split: prod.splits option.splits)

lemma load_song_timing:
  assumes "fst (load_song fi path s) = None"
  shows "elapsed_seconds (snd (load_song fi path s)) = 0 \<and>
         elapsed_duration (snd (load_song fi path s)) = 0 \<and>
         total_seconds (snd (load_song fi path s)) =
           (if length_samples fi \<noteq> MPG123_ERR
            then to_int (trunc_div (length_samples fi) (fmt_rate fi)) else 0)"
  using assms
  by (cases "audio_device s")
     (auto simp add: load_song_cases Let_def read_tags_progress emit_def pause_audio_device_def
        split: if_splits)

lemma file_ok_total:
  assumes "file_ok fi"
  shows "0 \<le> (if length_samples fi \<noteq> MPG123_ERR
               then to_int (trunc_div (length_samples fi) (fmt_rate fi)) else 0)"
proof (cases "length_samples fi = MPG123_ERR")
  case True
  then show ?thesis by simp
next
  case False
  then have l: "0 \<le> length_samples fi" "0 < fmt_rate fi"
    "length_samples fi div fmt_rate fi \<le> INT_MAX"
    using assms by (simp_all add: file_ok_def)
  have d: "trunc_div (length_samples fi) (fmt_rate fi) = length_samples fi div fmt_rate fi"
    using l by (simp add: trunc_div_nonneg)
  have "0 \<le> length_samples fi div fmt_rate fi" using l by (simp add: pos_imp_zdiv_nonneg_iff)
  then show ?thesis using False l d by (simp add: to_int_id)
qed

lemma load_song_progress:
  assumes "progress_ok s" "file_ok fi"
  shows "progress_ok (snd (load_song fi path s))"
proof -
  note t = file_ok_total[OF assms(2)]
  show ?thesis using assms(1) t
    by (cases "audio_device s")
       (auto simp add: load_song_cases Let_def read_tags_progress emit_def pause_audio_device_def
          progress_ok_def)
qed

lemma playlist_progress: "progress_ok (s\<lparr>playlist := p\<rparr>) = progress_ok s"
  by (simp add: progress_ok_def)

lemma pause_start_time: "start_time (pause rnd now s) = start_time s"
  by (simp add: pause_only)

lemma next_song_progress:
  assumes "progress_ok s" "start_time s \<le> t1" "file_ok fi"
  shows "progress_ok (snd (next_song rnd fi t1 t2 s))"
proof (cases "playlist s")
  case None
  then show ?thesis using assms by (simp add: next_song_def)
next
  case (Some pl)
  obtain pl' r where n: "next_track pl = (pl', r)" by (cases "next_track pl")
  let ?s2 = "(pause rnd t1 s)\<lparr>playlist := Some pl'\<rparr>"
  have 2: "progress_ok ?s2"
    using pause_progress[OF assms(1,2)] by (simp add: playlist_progress)
  show ?thesis
  proof (cases r)
    case (Inl e)
    then show ?thesis using Some n 2 by (simp add: next_song_def)
  next
    case (Inr path)
    have 3: "progress_ok (snd (load_song fi path ?s2))"
      using 2 assms(3) by (rule load_song_progress)
    obtain e s3 where l: "load_song fi path ?s2 = (e, s3)" by (cases "load_song fi path ?s2")
    have "progress_ok (resume rnd t2 s3)" using 3 l resume_progress[of s3] by simp
    then show ?thesis using Some n Inr l 3 by (cases e) (simp_all add: next_song_def)
  qed
qed

lemma prev_song_progress:
  assumes "progress_ok s" "start_time s \<le> t1" "file_ok fi"
  shows "progress_ok (snd (prev_song rnd fi t1 t2 s))"
proof (cases "playlist s")
  case None
  then show ?thesis using assms by (simp add: prev_song_def)
next
  case (Some pl)
  obtain pl' r where n: "prev_track pl = (pl', r)" by (cases "prev_track pl")
  let ?s2 = "(pause rnd t1 s)\<lparr>playlist := Some pl'\<rparr>"
  have 2: "progress_ok ?s2"
    using pause_progress[OF assms(1,2)] by (simp add: playlist_progress)
  show ?thesis
  proof (cases r)
    case (Inl e)
    then show ?thesis using Some n 2 by (simp add: prev_song_def)
  next
    case (Inr path)
    have 3: "progress_ok (snd (load_song fi path ?s2))"
      using 2 assms(3) by (rule load_song_progress)
    obtain e s3 where l: "load_song fi path ?s2 = (e, s3)" by (cases "load_song fi path ?s2")
    have "progress_ok (resume rnd t2 s3)" using 3 l resume_progress[of s3] by simp
    then show ?thesis using Some n Inr l 3 by (cases e) (simp_all add: prev_song_def)
  qed
qed

lemma load_current_progress:
  assumes "progress_ok s" "file_ok fi"
  shows "progress_ok (snd (load_current fi s))"
proof (cases "playlist s")
  case None
  then show ?thesis using assms by (simp add: load_current_def)
next
  case (Some pl)
  show ?thesis
  proof (cases "current pl")
    case (Inl e)
    then show ?thesis using Some assms by (simp add: load_current_def)
  next
    case (Inr path)
    then show ?thesis using Some load_song_progress[OF assms, of path]
      by (simp add: load_current_def)
  qed
qed

lemma seek_target_bounds:
  "0 \<le> total_seconds s \<Longrightarrow> 0 \<le> seek_target d s \<and> seek_target d s \<le> total_seconds s"
  by (simp add: seek_target_def clamp_int_def)

lemma seek_relative_accumulator:
  "elapsed_duration (snd (seek_relative rnd d rate ret t1 t2 s)) = elapsed_duration s \<or>
   elapsed_duration (snd (seek_relative rnd d rate ret t1 t2 s)) = seek_target d s * 1000"
  by (cases "audio_device s")
     (auto simp add: seek_relative_def Let_def resume_only emit_def seek_target_def)

lemma seek_relative_progress:
  assumes "progress_ok s"
  shows "progress_ok (snd (seek_relative rnd d rate ret t1 t2 s))"
proof -
  have "0 \<le> total_seconds s \<Longrightarrow> 0 \<le> clamp_int (elapsed_seconds s + d) 0 (total_seconds s)"
    by (simp add: clamp_int_def)
  then show ?thesis using assms
    by (cases "audio_device s")
       (auto simp add: seek_relative_def Let_def resume_only emit_def progress_ok_def)
qed

lemma update_elapsed_time_value:
  assumes "0 \<le> elapsed_duration s" "start_time s \<le> now" "count_fits now s"
  shows "elapsed_seconds (update_elapsed_time now s) =
           (elapsed_duration s * 1000000 + (now - start_time s)) div 1000000000"
    and "0 \<le> elapsed_seconds (update_elapsed_time now s)"
proof -
  let ?n = "elapsed_duration s * 1000000 + (now - start_time s)"
  have n: "0 \<le> ?n" using assms(1,2) by simp
  have d: "trunc_div ?n 1000000000 = ?n div 1000000000" using n by (simp add: trunc_div_nonneg)
  have p: "0 \<le> ?n div 1000000000" using n by (simp add: pos_imp_zdiv_nonneg_iff)
  have "to_int (?n div 1000000000) = ?n div 1000000000"
    using p assms(3) by (simp add: to_int_id count_fits_def)
  then show "elapsed_seconds (update_elapsed_time now s) = ?n div 1000000000"
    by (simp add: update_elapsed_time_def d)
  then show "0 \<le> elapsed_seconds (update_elapsed_time now s)" using p by simp
qed

lemma update_elapsed_time_progress:
  assumes "progress_ok s" "start_time s \<le> now" "count_fits now s"
  shows "progress_ok (update_elapsed_time now s)"
proof -
  have "0 \<le> elapsed_duration s" using assms(1) by (simp add: progress_ok_def)
  then have "0 \<le> elapsed_seconds (update_elapsed_time now s)"
    using assms(2,3) by (rule update_elapsed_time_value(2))
  then show ?thesis using assms(1) by (simp add: update_elapsed_time_def progress_ok_def)
qed

lemma thread_step_progress:
  assumes "progress_ok s" "start_time s \<le> clock1 x" "file_ok (opened x)"
    and "count_fits (clock1 x) s"
  shows "progress_ok (snd (snd (thread_step x p s)))"
proof (cases p)
  case Outer
  then show ?thesis using assms(1)
    by (cases "audio_device s") (simp_all add: resume_audio_device_def emit_def progress_ok_def)
next
  case Inner
  have "progress_ok (update_elapsed_time (clock1 x) s)"
    using assms(1,2,4) by (rule update_elapsed_time_progress)
  then show ?thesis using Inner assms(1) by simp
next
  case (Space n)
  then show ?thesis using assms(1)
    by (cases "audio_device s") (simp_all add: queue_audio_def emit_def progress_ok_def)
next
  case Drain
  have e: "progress_ok (emit Mpg123_close s)" "start_time (emit Mpg123_close s) \<le> clock1 x"
    using assms(1,2) by (simp_all add: emit_def progress_ok_def)
  have n: "progress_ok
             (snd (next_song (rounding x) (opened x) (clock1 x) (clock2 x) (emit Mpg123_close s)))"
    using e assms(3) by (rule next_song_progress)
  have st: "progress_ok ((emit Mpg123_close s)\<lparr>state := STOPPED\<rparr>)"
    using assms(1) by (simp add: emit_def progress_ok_def)
  show ?thesis using Drain assms(1) n st
    by (simp add: Let_def split: prod.splits)
next
  case Exited
  then show ?thesis using assms(1) by simp
qed

lemmas concrete = Player_def ext0_def ext12_def track10_def started10_def started3_def load_song_cases
  Let_def read_tags_def pause_only resume_only emit_def pause_audio_device_def
  resume_audio_device_def update_elapsed_time_def to_int_def trunc_div_def MPG123_OK_def
  MPG123_ERR_def file_ok_def count_fits_def progress_ok_def INT_MAX_def INT_MIN_def
  int_range_def get_progress_def is_playing_def clamp_float_def VOLUME_FULL_def
  VOLUME_MUTE_def should_continue_def

text \<open>
  What happens when operations overlap. \<open>pause\<close> adds the time since \<open>start_time\<close> to the
  accumulator before its fade and sets the state only after it, so a frame decoded during
  the fade counts that time twice: four seconds into the ten-second file the elapsed
  seconds become 8. A clock reading taken before another thread restarts \<open>start_time\<close> is
  earlier than the \<open>start_time\<close> the update then reads, and the elapsed seconds can become
  negative.
\<close>

lemma update_during_pause_counts_twice:
  "elapsed_seconds
     (update_elapsed_time 4000000000
        (started10\<lparr>elapsed_duration :=
           elapsed_duration started10 + trunc_div (4000000000 - start_time started10) 1000000\<rparr>)) = 8"
  by (simp add: concrete)

lemma stale_clock_reading_goes_negative:
  "elapsed_seconds (update_elapsed_time 9000000000 (started10\<lparr>start_time := 10500000000\<rparr>)) = - 1"
  by (simp add: concrete)

text \<open>
  \<open>pause\<close> adds the time since \<open>start_time\<close> to the accumulator in every state but
  \<open>SWITCH_OFF\<close>, so a second \<open>pause\<close> adds the time since the same \<open>start_time\<close> again.
\<close>

lemma pause_twice_counts_twice:
  assumes "state s \<noteq> SWITCH_OFF"
  shows "elapsed_duration (pause rnd t2 (pause rnd t1 s)) =
         elapsed_duration s + trunc_div (t1 - start_time s) 1000000 +
         trunc_div (t2 - start_time s) 1000000"
  using assms by (simp add: pause_only)


text \<open>
  Claim C1 as stated fails. The elapsed seconds are the carried duration plus the time on
  the steady clock since \<open>start_time\<close>, taken whenever a frame is decoded; nothing compares
  them with \<open>total_seconds\<close>. The ten-second file is loaded, playback is resumed at clock
  reading 0, the thread enters its streaming loop and decodes a frame at clock reading
  twelve seconds: the progress query of the playing track answers \<open>(12, 10)\<close>.
\<close>

theorem elapsed_exceeds_total:
  "fst (load_song track10 ''a.mp3'' Player) = None \<and>
   thread_step ext0 Outer started10 = (Inner, None, resume_audio_device started10) \<and>
   is_playing
     (snd (snd (thread_step ext12 Inner
                  (resume_audio_device started10)))) \<and>
   get_progress
     (snd (snd (thread_step ext12 Inner
                  (resume_audio_device started10)))) = (12, 10)"
  by (simp add: concrete)

text \<open>
  Claim C1, amended. The progress query returns the stored pair of elapsed and total
  seconds, \<open>(0, 0)\<close> after construction. Every operation that writes the timing fields
  (\<open>pause\<close>, \<open>resume\<close>, \<open>load_song\<close>, \<open>load_current\<close>, \<open>set_playlist\<close>, \<open>next_song\<close>,
  \<open>prev_song\<close>, \<open>seek_relative\<close>, \<open>update_elapsed_time\<close>, a step of the streaming thread),
  applied to an object whose elapsed seconds, total seconds and accumulator are at least 0,
  leaves them at least 0, provided the clock reading that \<open>pause\<close> and
  \<open>update_elapsed_time\<close> use is not earlier than the \<open>start_time\<close> they find, the decoder
  reports a positive rate and a length that is unknown or not negative, and the seconds
  fit an \<open>int\<close>. A load that succeeds leaves the elapsed seconds and the accumulator at 0.
  A seek leaves the accumulator as it is or sets it to its target, and the target lies in
  \<open>[0, total_seconds]\<close>. A decoded frame sets the elapsed seconds to the whole seconds of
  the accumulator plus the time since \<open>start_time\<close>, whatever the total seconds are: the
  elapsed seconds are not bounded by the total.
\<close>

theorem progress_components:
  assumes "progress_ok s" "start_time s \<le> clock1 x" "file_ok (opened x)"
    and "count_fits (clock1 x) s"
  shows "get_progress Player = (0, 0) \<and>
         get_progress s = (elapsed_seconds s, total_seconds s) \<and>
         0 \<le> fst (get_progress s) \<and> 0 \<le> snd (get_progress s) \<and>
         progress_ok (pause (rounding x) (clock1 x) s) \<and>
         progress_ok (resume (rounding x) (clock2 x) s) \<and>
         progress_ok (snd (load_song (opened x) path s)) \<and>
         progress_ok (snd (load_current (opened x) s)) \<and>
         progress_ok (snd (set_playlist (opened x) pl s)) \<and>
         progress_ok (snd (next_song (rounding x) (opened x) (clock1 x) (clock2 x) s)) \<and>
         progress_ok (snd (prev_song (rounding x) (opened x) (clock1 x) (clock2 x) s)) \<and>
         progress_ok (snd (seek_relative (rounding x) d rate ret (clock1 x) (clock2 x) s)) \<and>
         progress_ok (update_elapsed_time (clock1 x) s) \<and>
         progress_ok (snd (snd (thread_step x p s))) \<and>
         (fst (load_song (opened x) path s) = None \<longrightarrow>
            elapsed_seconds (snd (load_song (opened x) path s)) = 0 \<and>
            elapsed_duration (snd (load_song (opened x) path s)) = 0) \<and>
         (elapsed_duration (snd (seek_relative (rounding x) d rate ret (clock1 x) (clock2 x) s)) =
            elapsed_duration s \<or>
          elapsed_duration (snd (seek_relative (rounding x) d rate ret (clock1 x) (clock2 x) s)) =
            seek_target d s * 1000) \<and>
         0 \<le> seek_target d s \<and> seek_target d s \<le> total_seconds s \<and>
         elapsed_seconds (update_elapsed_time (clock1 x) s) =
           (elapsed_duration s * 1000000 + (clock1 x - start_time s)) div 1000000000 \<and>
         elapsed_seconds (update_elapsed_time (clock1 x) (s\<lparr>total_seconds := t\<rparr>)) =
           elapsed_seconds (update_elapsed_time (clock1 x) s)"
proof -
  have nn: "0 \<le> elapsed_seconds s" "0 \<le> total_seconds s" "0 \<le> elapsed_duration s"
    using assms(1) by (simp_all add: progress_ok_def)
  have g: "get_progress Player = (0, 0)"
    "get_progress s = (elapsed_seconds s, total_seconds s)"
    "0 \<le> fst (get_progress s)" "0 \<le> snd (get_progress s)"
    using nn by (simp_all add: get_progress_def Player_def)
  have 1: "progress_ok (pause (rounding x) (clock1 x) s)"
    using assms(1,2) by (rule pause_progress)
  have 2: "progress_ok (resume (rounding x) (clock2 x) s)"
    using assms(1) by (rule resume_progress)
  have 3: "progress_ok (snd (load_song (opened x) path s))"
    using assms(1,3) by (rule load_song_progress)
  have 4: "progress_ok (snd (load_current (opened x) s))"
    using assms(1,3) by (rule load_current_progress)
  have "progress_ok (s\<lparr>playlist := pl\<rparr>)" using assms(1) by (simp add: playlist_progress)
  then have 5: "progress_ok (snd (set_playlist (opened x) pl s))"
    unfolding set_playlist_def using assms(3) by (rule load_current_progress)
  have 6: "progress_ok (snd (next_song (rounding x) (opened x) (clock1 x) (clock2 x) s))"
    using assms(1,2,3) by (rule next_song_progress)
  have 7: "progress_ok (snd (prev_song (rounding x) (opened x) (clock1 x) (clock2 x) s))"
    using assms(1,2,3) by (rule prev_song_progress)
  have 8: "progress_ok (snd (seek_relative (rounding x) d rate ret (clock1 x) (clock2 x) s))"
    using assms(1) by (rule seek_relative_progress)
  have 9: "progress_ok (update_elapsed_time (clock1 x) s)"
    using assms(1,2,4) by (rule update_elapsed_time_progress)
  have 10: "progress_ok (snd (snd (thread_step x p s)))"
    using assms by (rule thread_step_progress)
  have 11: "fst (load_song (opened x) path s) = None \<longrightarrow>
            elapsed_seconds (snd (load_song (opened x) path s)) = 0 \<and>
            elapsed_duration (snd (load_song (opened x) path s)) = 0"
    using load_song_timing[of "opened x" path s] by simp
  note 12 = seek_relative_accumulator[of "rounding x" d rate ret "clock1 x" "clock2 x" s]
  note 13 = seek_target_bounds[OF nn(2), of d]
  have 14: "elapsed_seconds (update_elapsed_time (clock1 x) s) =
           (elapsed_duration s * 1000000 + (clock1 x - start_time s)) div 1000000000"
    using nn(3) assms(2,4) by (rule update_elapsed_time_value(1))
  have 15: "elapsed_seconds (update_elapsed_time (clock1 x) (s\<lparr>total_seconds := t\<rparr>)) =
           elapsed_seconds (update_elapsed_time (clock1 x) s)"
    by (simp add: update_elapsed_time_def)
  show ?thesis
    using g 1 2 3 4 5 6 7 8 9 10 11 12 13 14 15 by blast
qed

theorem progress_components_witness:
  "progress_ok started10 \<and> start_time started10 \<le> clock1 ext12 \<and>
   file_ok (opened ext12) \<and>
   count_fits (clock1 ext12) started10 \<and>
   fst (load_song (opened ext12) ''a.mp3'' started10) = None \<and>
   elapsed_seconds (snd (load_song (opened ext12) ''a.mp3'' started10)) = 0 \<and>
   progress_ok (update_elapsed_time 12000000000 started10) \<and>
   elapsed_seconds (update_elapsed_time 12000000000 started10) = 12 \<and>
   seek_target 5 started10 = 5 \<and>
   elapsed_duration (snd (seek_relative Num 5 44100 220500 12000000000 12000000000 started10)) = 5000"
proof -
  have h: "progress_ok started10"
    "start_time started10 \<le> clock1 ext12"
    "file_ok (opened ext12)"
    "count_fits (clock1 ext12) started10"
    by (simp_all add: concrete)
  have l: "fst (load_song (opened ext12) ''a.mp3'' started10) = None"
    by (simp add: concrete)
  have c: "clock1 ext12 = 12000000000"
    "clock2 ext12 = 12000000000" "rounding ext12 = Num"
    by (simp_all add: ext0_def ext12_def)
  have v: "(elapsed_duration started10 * 1000000 + (12000000000 - start_time started10))
             div 1000000000 = 12"
    "seek_target 5 started10 = 5"
    "elapsed_duration (snd (seek_relative Num 5 44100 220500 12000000000 12000000000 started10)) = 5000"
    by (simp_all add: concrete seek_target_def clamp_int_def seek_relative_def)
  note T = progress_components[OF h, where path = "''a.mp3''" and d = 5 and rate = 44100
      and ret = 220500]
  have u: "progress_ok (update_elapsed_time 12000000000 started10)"
    "elapsed_seconds (update_elapsed_time 12000000000 started10) = 12"
    "elapsed_seconds (snd (load_song (opened ext12) ''a.mp3'' started10)) = 0"
    using T l unfolding c v by blast+
  show ?thesis using h l u v by blast
qed


section \<open>The streaming thread and errors\<close>

lemma load_song_error: "fst (load_song fi path s) = load_error fi path"
  using tag_error_cases[of fi]
  by (auto simp add: load_song_cases load_error_def Let_def read_tags_error)

lemma next_song_error: "fst (next_song rnd (opened x) t1 t2 s) = advance_error x s"
proof (cases "playlist s")
  case None
  then show ?thesis by (simp add: next_song_def advance_error_def)
next
  case (Some pl)
  obtain pl' r where n: "next_track pl = (pl', r)" by (cases "next_track pl")
  show ?thesis
  proof (cases r)
    case (Inl e)
    then show ?thesis using Some n by (simp add: next_song_def advance_error_def)
  next
    case (Inr path)
    let ?s2 = "(pause rnd t1 s)\<lparr>playlist := Some pl'\<rparr>"
    obtain e s3 where l: "load_song (opened x) path ?s2 = (e, s3)"
      by (cases "load_song (opened x) path ?s2")
    have "e = load_error (opened x) path" using load_song_error[of "opened x" path ?s2] l by simp
    then have "advance_error x s = e" using Some n Inr by (simp add: advance_error_def)
    moreover have "fst (next_song rnd (opened x) t1 t2 s) = e"
      using Some n Inr l by (cases e) (simp_all add: next_song_def)
    ultimately show ?thesis by simp
  qed
qed


lemma load_song_state:
  "state (snd (load_song fi path s)) = STOPPED"
  by (cases "audio_device s")
     (auto simp add: load_song_cases Let_def read_tags_progress emit_def pause_audio_device_def)

lemma next_song_state:
  assumes "state s = PLAY" "playlist s \<noteq> None" "advance_error x s = None"
  shows "state (snd (next_song rnd (opened x) t1 t2 s)) = PLAY"
proof -
  obtain pl where p: "playlist s = Some pl" using assms(2) by blast
  obtain pl' r where n: "next_track pl = (pl', r)" by (cases "next_track pl")
  obtain path where r: "r = Inr path"
    using assms(3) p n by (cases r) (simp_all add: advance_error_def)
  let ?s2 = "(pause rnd t1 s)\<lparr>playlist := Some pl'\<rparr>"
  obtain e s3 where l: "load_song (opened x) path ?s2 = (e, s3)"
    by (cases "load_song (opened x) path ?s2")
  have e: "e = None"
    using load_song_error[of "opened x" path ?s2] l assms(3) p n r
    by (simp add: advance_error_def)
  have "state s3 = STOPPED" using load_song_state[of "opened x" path ?s2] l by simp
  then show ?thesis using p n r l e by (simp add: next_song_def resume_only)
qed


text \<open>
  Claim C2 as stated fails. \<open>player_thread\<close> calls \<open>next_song\<close> outside any handler, so
  the exception \<open>load_song\<close> throws for the next file leaves the thread function. The
  playlist of three songs is set, playback is resumed, the thread enters its streaming
  loop, \<open>mpg123_read\<close> returns \<open>MPG123_DONE = -12\<close> at the end of the first song, and the
  next song cannot be opened: the step at the end of the track ends with the load error.
\<close>

theorem load_failure_ends_thread:
  "fst (set_playlist track10 (Some playlist3) Player) = None \<and>
   thread_step ext0 Outer started3 = (Inner, None, resume_audio_device started3) \<and>
   thread_step (ext0\<lparr>read_result := - 12\<rparr>) Inner (resume_audio_device started3) =
     (Drain, None, resume_audio_device started3) \<and>
   fst (snd (thread_step (ext0\<lparr>opened := track10\<lparr>open_ok := False\<rparr>\<rparr>) Drain
               (resume_audio_device started3))) =
     Some (LoadError ''Failed to open b.mp3'')"
  by (simp add: concrete next_song_def next_track_def current_def playlist3_def
        size_add_def SIZE_MOD_def set_playlist_def load_current_def)

text \<open>
  Claim C2, amended. While playing, a read that does not return \<open>MPG123_OK\<close> takes the
  thread to the draining of the device without any error; once drained, the decoder is
  closed and the thread either stops the player (no playlist) or calls \<open>next_song\<close>, after
  which the player is playing again if the next file loads. The only error that leaves a
  step of the thread is the one \<open>next_song\<close> ends with at the end of a track.
\<close>

theorem streaming_thread_errors:
  "(state s = PLAY \<and> read_result x \<noteq> MPG123_OK \<longrightarrow>
      thread_step x Inner s = (Drain, None, s)) \<and>
   (end_of_track x Drain s \<longrightarrow>
      thread_step x Drain s =
        (Outer,
         if playlist s = None then (None, (emit Mpg123_close s)\<lparr>state := STOPPED\<rparr>)
         else next_song (rounding x) (opened x) (clock1 x) (clock2 x) (emit Mpg123_close s))) \<and>
   (end_of_track x Drain s \<and> playlist s \<noteq> None \<and> advance_error x s = None \<longrightarrow>
      state (snd (snd (thread_step x Drain s))) = PLAY) \<and>
   fst (snd (thread_step x p s)) = (if end_of_track x p s then advance_error x s else None)"
proof -
  have ae: "advance_error x (emit Mpg123_close s) = advance_error x s"
    by (simp add: advance_error_def emit_def)
  have 1: "state s = PLAY \<and> read_result x \<noteq> MPG123_OK \<longrightarrow>
      thread_step x Inner s = (Drain, None, s)" by simp
  have 2: "end_of_track x Drain s \<longrightarrow>
      thread_step x Drain s =
        (Outer,
         if playlist s = None then (None, (emit Mpg123_close s)\<lparr>state := STOPPED\<rparr>)
         else next_song (rounding x) (opened x) (clock1 x) (clock2 x) (emit Mpg123_close s))"
    by (auto simp add: end_of_track_def emit_def Let_def split: prod.splits)
  have 3: "end_of_track x Drain s \<and> playlist s \<noteq> None \<and> advance_error x s = None \<longrightarrow>
      state (snd (snd (thread_step x Drain s))) = PLAY"
  proof
    assume a: "end_of_track x Drain s \<and> playlist s \<noteq> None \<and> advance_error x s = None"
    then have "state (emit Mpg123_close s) = PLAY" "playlist (emit Mpg123_close s) \<noteq> None"
      by (simp_all add: end_of_track_def emit_def)
    then have "state (snd (next_song (rounding x) (opened x) (clock1 x) (clock2 x)
                 (emit Mpg123_close s))) = PLAY"
      using a ae by (intro next_song_state) simp_all
    then show "state (snd (snd (thread_step x Drain s))) = PLAY" using a 2 by simp
  qed
  have 4: "fst (snd (thread_step x p s)) =
           (if end_of_track x p s then advance_error x s else None)"
  proof (cases p)
    case Drain
    have n: "fst (next_song (rounding x) (opened x) (clock1 x) (clock2 x) (emit Mpg123_close s)) =
             advance_error x s"
      using next_song_error[of "rounding x" x "clock1 x" "clock2 x" "emit Mpg123_close s"] ae
      by simp
    have np: "playlist s = None \<Longrightarrow> advance_error x s = None"
      by (simp add: advance_error_def)
    show ?thesis using Drain n np
      by (auto simp add: end_of_track_def emit_def Let_def split: prod.splits)
  qed (simp_all add: end_of_track_def)
  show ?thesis using 1 2 3 4 by blast
qed

theorem streaming_thread_errors_witness:
  "state playing10 = PLAY \<and> read_result (ext0\<lparr>read_result := - 12\<rparr>) \<noteq> MPG123_OK \<and>
   thread_step (ext0\<lparr>read_result := - 12\<rparr>) Inner playing10 = (Drain, None, playing10) \<and>
   end_of_track ext0 Drain playing10 \<and>
   thread_step ext0 Drain playing10 =
     (Outer, None, playing10\<lparr>calls := [Mpg123_close], state := STOPPED\<rparr>) \<and>
   end_of_track ext0 Drain (playing10\<lparr>playlist := Some playlist3\<rparr>) \<and>
   playlist (playing10\<lparr>playlist := Some playlist3\<rparr>) \<noteq> None \<and>
   advance_error ext0 (playing10\<lparr>playlist := Some playlist3\<rparr>) = None \<and>
   state (snd (snd (thread_step ext0 Drain (playing10\<lparr>playlist := Some playlist3\<rparr>)))) = PLAY"
proof -
  have h1: "state playing10 = PLAY \<and> read_result (ext0\<lparr>read_result := - 12\<rparr>) \<noteq> MPG123_OK"
    by (simp add: playing10_def ext0_def MPG123_OK_def)
  have h2: "end_of_track ext0 Drain playing10"
    "end_of_track ext0 Drain (playing10\<lparr>playlist := Some playlist3\<rparr>)"
    by (simp_all add: end_of_track_def playing10_def ext0_def)
  have h3: "playlist playing10 = None" "calls playing10 = []"
    by (simp_all add: playing10_def Player_def)
  have h4: "advance_error ext0 (playing10\<lparr>playlist := Some playlist3\<rparr>) = None"
    by (simp add: advance_error_def next_track_def current_def playlist3_def size_add_def
          SIZE_MOD_def load_error_def tag_error_def read_tags_def ext0_def track10_def MPG123_ERR_def)
  have h5: "playlist (playing10\<lparr>playlist := Some playlist3\<rparr>) \<noteq> None" by simp
  have c1: "thread_step (ext0\<lparr>read_result := - 12\<rparr>) Inner playing10 = (Drain, None, playing10)"
    using h1 streaming_thread_errors[where s = playing10 and x = "ext0\<lparr>read_result := - 12\<rparr>"
        and p = Drain]
    by blast
  have "thread_step ext0 Drain playing10 =
        (Outer,
         if playlist playing10 = None then (None, (emit Mpg123_close playing10)\<lparr>state := STOPPED\<rparr>)
         else next_song (rounding ext0) (opened ext0) (clock1 ext0) (clock2 ext0)
                (emit Mpg123_close playing10))"
    using h2(1) streaming_thread_errors[where s = playing10 and x = ext0 and p = Drain]
    by blast
  then have c2: "thread_step ext0 Drain playing10 =
     (Outer, None, playing10\<lparr>calls := [Mpg123_close], state := STOPPED\<rparr>)"
    unfolding emit_def h3 by (simp del: thread_step.simps)
  have c3: "state (snd (snd (thread_step ext0 Drain (playing10\<lparr>playlist := Some playlist3\<rparr>)))) = PLAY"
    using h2(2) h4 h5
      streaming_thread_errors[where s = "playing10\<lparr>playlist := Some playlist3\<rparr>" and x = ext0
        and p = Drain]
    by blast
  show ?thesis using h1 h2 h4 h5 c1 c2 c3 by blast
qed

end
